theory Spec2Isabelle
  imports Main
begin

section \<open>Data model\<close>

text \<open>
  The enumerations and interfaces of the type declarations, and the constants of
  \<^verbatim>\<open>constants.ts\<close>. Coordinates, scores, counters and clock readings are JavaScript
  numbers holding integers; they are modelled as \<open>int\<close>. The fields \<^verbatim>\<open>x\<close> and \<^verbatim>\<open>y\<close> of
  a coordinate are called \<open>cx\<close> and \<open>cy\<close>, the field \<^verbatim>\<open>type\<close> is called \<open>ptype\<close> in a
  power-up on the board and \<open>atype\<close> in the active power-up.
\<close>

datatype Direction = UP | DOWN | LEFT | RIGHT

datatype GameStatus = IDLE | PLAYING | PAUSED | GAME_OVER

datatype PowerUpType = GHOST | SLOW_TIME

datatype Reason = WALL | SELF

record Coordinate =
  cx :: int
  cy :: int

record PowerUp = Coordinate +
  ptype :: PowerUpType

record ActivePowerUp =
  atype :: PowerUpType
  expiresAt :: int

definition GRID_SIZE :: int where
  "GRID_SIZE = 20"

definition POWERUP_DURATION :: int where
  "POWERUP_DURATION = 5000"

definition COMBO_TIMEOUT_MS :: int where
  "COMBO_TIMEOUT_MS = 4000"

definition POINTS_PER_FOOD :: int where
  "POINTS_PER_FOOD = 10"

definition MAX_LIVES :: int where
  "MAX_LIVES = 3"

definition INITIAL_SNAKE :: "Coordinate list" where
  "INITIAL_SNAKE = [\<lparr>cx = 10, cy = 10\<rparr>, \<lparr>cx = 10, cy = 11\<rparr>, \<lparr>cx = 10, cy = 12\<rparr>]"

definition INITIAL_DIRECTION :: Direction where
  "INITIAL_DIRECTION = UP"

text \<open>
  The state of the \<^verbatim>\<open>App\<close> component: one field for each \<^verbatim>\<open>useState\<close> cell that the
  game logic reads or writes, \<open>savedComboTime\<close> for \<^verbatim>\<open>savedComboTimeRef.current\<close>, and
  \<open>localStorage\<close> for the integer kept under the key \<^verbatim>\<open>neonSnakeHighScore\<close> (\<open>None\<close>
  when the key is absent). The cells that only drive presentation (start speed, mute flag,
  animation flag, commentary text and its loading flag) are left out.
\<close>

record App =
  snake :: "Coordinate list"
  food :: Coordinate
  powerUps :: "PowerUp list"
  activePowerUp :: "ActivePowerUp option"
  direction :: Direction
  nextDirection :: Direction
  score :: int
  highScore :: int
  lives :: int
  status :: GameStatus
  gameOverReason :: "Reason option"
  combo :: int
  comboExpiresAt :: int
  savedComboTime :: int
  localStorage :: "int option"

text \<open>
  What one tick reads from its environment: the three readings of \<^verbatim>\<open>Date.now()\<close> (at
  the top of the tick, when food is eaten, when a power-up is picked up), the cells drawn
  by the food placement, the outcome of \<^verbatim>\<open>Math.random() < POWERUP_SPAWN_CHANCE\<close>, the
  cells drawn by the power-up placement, and the outcome of \<^verbatim>\<open>Math.random() > 0.5\<close>
  that chooses the kind. A drawn cell is the pair of two
  \<^verbatim>\<open>Math.floor(Math.random() * GRID_SIZE)\<close>; draw number \<open>n\<close> (from 0) is the cell of
  the \<open>n+1\<close>-th iteration of the sampling loop. The last field says whether the
  component has no work pending when the timer fires (its last render changed nothing):
  React then evaluates a state updater at the \<^verbatim>\<open>setState\<close> call itself, and otherwise
  while it renders.
\<close>

record Env =
  tickTime :: int
  eatTime :: int
  pickTime :: int
  foodDraws :: "nat \<Rightarrow> Coordinate"
  spawnRoll :: bool
  powerUpDraws :: "nat \<Rightarrow> Coordinate"
  typeRoll :: bool
  fiberIdle :: bool

section \<open>Placement of food and power-ups\<close>

definition isOccupied :: "int \<Rightarrow> int \<Rightarrow> Coordinate list \<Rightarrow> PowerUp list \<Rightarrow> bool" where
  "isOccupied x y currentSnake currentPowerUps =
     (let onSnake = list_ex (\<lambda>s. cx s = x \<and> cy s = y) currentSnake;
          onPowerUp = list_ex (\<lambda>p. cx p = x \<and> cy p = y) currentPowerUps
      in onSnake \<or> onPowerUp)"

text \<open>
  The \<^verbatim>\<open>do ... while\<close> loop of \<^verbatim>\<open>generateFood\<close> has no bound, so it is a partial
  function: \<open>None\<close> is the loop that never ends. The argument \<open>i\<close> counts the draws
  already consumed.
\<close>

partial_function (option) generateFoodLoop ::
  "(nat \<Rightarrow> Coordinate) \<Rightarrow> nat \<Rightarrow> Coordinate list \<Rightarrow> PowerUp list \<Rightarrow> Coordinate option" where
  "generateFoodLoop draws i currentSnake currentPowerUps =
     (let newFood = draws i in
      if isOccupied (cx newFood) (cy newFood) currentSnake currentPowerUps
      then generateFoodLoop draws (Suc i) currentSnake currentPowerUps
      else Some newFood)"

definition generateFood ::
  "(nat \<Rightarrow> Coordinate) \<Rightarrow> Coordinate list \<Rightarrow> PowerUp list \<Rightarrow> Coordinate option" where
  "generateFood draws currentSnake currentPowerUps =
     generateFoodLoop draws 0 currentSnake currentPowerUps"

text \<open>
  The loop of \<^verbatim>\<open>generatePowerUp\<close>: it returns the last cell drawn and the number of
  attempts made.
\<close>

function generatePowerUpLoop ::
  "(nat \<Rightarrow> Coordinate) \<Rightarrow> Coordinate list \<Rightarrow> Coordinate \<Rightarrow> PowerUp list \<Rightarrow> nat
     \<Rightarrow> Coordinate \<times> nat" where
  "generatePowerUpLoop draws currentSnake currentFood currentPowerUps attempts =
     (let newLoc = draws attempts;
          attempts' = attempts + 1
      in if (isOccupied (cx newLoc) (cy newLoc) currentSnake currentPowerUps
               \<or> (cx newLoc = cx currentFood \<and> cy newLoc = cy currentFood))
            \<and> attempts' < 20
         then generatePowerUpLoop draws currentSnake currentFood currentPowerUps attempts'
         else (newLoc, attempts'))"
  by pat_completeness auto
termination
  by (relation "measure (\<lambda>(draws, currentSnake, currentFood, currentPowerUps, attempts).
        20 - attempts)") auto

declare generatePowerUpLoop.simps [simp del]

definition generatePowerUp ::
  "(nat \<Rightarrow> Coordinate) \<Rightarrow> bool \<Rightarrow> Coordinate list \<Rightarrow> Coordinate \<Rightarrow> PowerUp list
     \<Rightarrow> PowerUp option" where
  "generatePowerUp draws kindRoll currentSnake currentFood currentPowerUps =
     (if length currentPowerUps > 0 then None
      else
        (case generatePowerUpLoop draws currentSnake currentFood currentPowerUps 0 of
           (newLoc, attempts) \<Rightarrow>
             if attempts \<ge> 20 then None
             else Some \<lparr>cx = cx newLoc, cy = cy newLoc,
                        ptype = (if kindRoll then GHOST else SLOW_TIME)\<rparr>))"

section \<open>Life loss and game over\<close>

text \<open>
  A handler runs inside a render: what it reads through its closure (\<^verbatim>\<open>lives\<close>,
  \<^verbatim>\<open>score\<close>, \<^verbatim>\<open>combo\<close>, ...) are the values of that render, here the state \<open>c\<close>, while
  its \<^verbatim>\<open>setX\<close> calls are queued and applied in order, a functional update
  (\<^verbatim>\<open>setX(v => ...)\<close>) to the value the queue has reached, here the state \<open>t\<close>. The
  commentary request of \<^verbatim>\<open>handleGameOver\<close> and the audio calls act on nothing the model
  keeps.
\<close>

definition handleGameOver :: "int \<Rightarrow> Reason \<Rightarrow> App \<Rightarrow> App \<Rightarrow> App" where
  "handleGameOver currentScore reason c t =
     (let t1 = t\<lparr>status := GAME_OVER, gameOverReason := Some reason\<rparr>
      in if currentScore > highScore c then t1\<lparr>localStorage := Some currentScore\<rparr> else t1)"

definition handleLifeLost :: "(nat \<Rightarrow> Coordinate) \<Rightarrow> Reason \<Rightarrow> App \<Rightarrow> App \<Rightarrow> App option" where
  "handleLifeLost draws reason c t =
     (if lives c > 1 then
        (let t1 = t\<lparr>lives := lives t - 1, combo := 0, snake := INITIAL_SNAKE,
                    direction := INITIAL_DIRECTION, nextDirection := INITIAL_DIRECTION,
                    activePowerUp := None\<rparr>;
             prevFood = food t1;
             isUnderSpawn = list_ex (\<lambda>s. cx s = cx prevFood \<and> cy s = cy prevFood) INITIAL_SNAKE
         in if isUnderSpawn
            then map_option (\<lambda>f. t1\<lparr>food := f\<rparr>) (generateFood draws INITIAL_SNAKE [])
            else Some t1)
      else Some (handleGameOver (score c) reason c (t\<lparr>lives := 0\<rparr>)))"

section \<open>The tick\<close>

definition moveHead :: "Direction \<Rightarrow> Coordinate \<Rightarrow> Coordinate" where
  "moveHead currentDir head =
     (case currentDir of
        UP \<Rightarrow> head\<lparr>cy := cy head - 1\<rparr>
      | DOWN \<Rightarrow> head\<lparr>cy := cy head + 1\<rparr>
      | LEFT \<Rightarrow> head\<lparr>cx := cx head - 1\<rparr>
      | RIGHT \<Rightarrow> head\<lparr>cx := cx head + 1\<rparr>)"

definition outOfGrid :: "Coordinate \<Rightarrow> bool" where
  "outOfGrid newHead =
     (cx newHead < 0 \<or> cx newHead \<ge> GRID_SIZE \<or> cy newHead < 0 \<or> cy newHead \<ge> GRID_SIZE)"

text \<open>The four assignments of the wrap-around, one after the other.\<close>

definition wrapAround :: "Coordinate \<Rightarrow> Coordinate" where
  "wrapAround newHead =
     (let h1 = (if cx newHead < 0 then newHead\<lparr>cx := GRID_SIZE - 1\<rparr> else newHead);
          h2 = (if cx h1 \<ge> GRID_SIZE then h1\<lparr>cx := 0\<rparr> else h1);
          h3 = (if cy h2 < 0 then h2\<lparr>cy := GRID_SIZE - 1\<rparr> else h2);
          h4 = (if cy h3 \<ge> GRID_SIZE then h3\<lparr>cy := 0\<rparr> else h3)
      in h4)"

text \<open>The test \<^verbatim>\<open>activePowerUp?.type === PowerUpType.GHOST\<close>.\<close>

definition ghostActive :: "ActivePowerUp option \<Rightarrow> bool" where
  "ghostActive ap = (case ap of None \<Rightarrow> False | Some a \<Rightarrow> atype a = GHOST)"

definition selfCheck :: "ActivePowerUp option \<Rightarrow> Coordinate \<Rightarrow> Coordinate list \<Rightarrow> Reason + Coordinate" where
  "selfCheck ap newHead prevSnake =
     (if \<not> ghostActive ap \<and> list_ex (\<lambda>seg. cx seg = cx newHead \<and> cy seg = cy newHead) prevSnake
      then Inl SELF
      else Inr newHead)"

text \<open>
  The two collision checks of the tick: \<open>Inl reason\<close> when \<^verbatim>\<open>handleLifeLost(reason)\<close>
  is invoked, \<open>Inr newHead\<close> with the head the snake advances to otherwise.
\<close>

definition checkCollision ::
  "ActivePowerUp option \<Rightarrow> Direction \<Rightarrow> Coordinate \<Rightarrow> Coordinate list \<Rightarrow> Reason + Coordinate" where
  "checkCollision ap currentDir head prevSnake =
     (let newHead = moveHead currentDir head
      in if outOfGrid newHead
         then (if ghostActive ap then selfCheck ap (wrapAround newHead) prevSnake else Inl WALL)
         else selfCheck ap newHead prevSnake)"

fun findIndex :: "('a \<Rightarrow> bool) \<Rightarrow> 'a list \<Rightarrow> nat option" where
  "findIndex P [] = None"
| "findIndex P (p # ps) = (if P p then Some 0 else map_option Suc (findIndex P ps))"

text \<open>
  The food check and the power-up check, for a snake that advances to \<open>newHead\<close>.
  The multiplier is computed from the closure's \<^verbatim>\<open>combo\<close>, the counter itself is
  incremented by a functional update.
\<close>

definition eatOrPop :: "Env \<Rightarrow> App \<Rightarrow> App \<Rightarrow> Coordinate \<Rightarrow> App option" where
  "eatOrPop env c t newHead =
     (let prevSnake = snake t;
          newSnake = newHead # prevSnake
      in if cx newHead = cx (food c) \<and> cy newHead = cy (food c)
         then
           (let effectiveCombo = combo c + 1;
                currentMultiplier = 1 + effectiveCombo div 5;
                t1 = t\<lparr>combo := combo t + 1,
                        score := score t + POINTS_PER_FOOD * currentMultiplier,
                        comboExpiresAt := eatTime env + COMBO_TIMEOUT_MS\<rparr>
            in map_option (\<lambda>f. t1\<lparr>food := f, snake := newSnake\<rparr>)
                 (generateFood (foodDraws env) newSnake (powerUps c)))
         else Some (t\<lparr>snake := butlast newSnake\<rparr>))"

definition pickPowerUp :: "Env \<Rightarrow> App \<Rightarrow> App \<Rightarrow> Coordinate \<Rightarrow> App" where
  "pickPowerUp env c t newHead =
     (case findIndex (\<lambda>p. cx p = cx newHead \<and> cy p = cy newHead) (powerUps c) of
        None \<Rightarrow> t
      | Some hitPowerUpIndex \<Rightarrow>
          (let powerUp = powerUps c ! hitPowerUpIndex;
               newPowerUps = take hitPowerUpIndex (powerUps c) @ drop (Suc hitPowerUpIndex) (powerUps c)
           in t\<lparr>activePowerUp := Some \<lparr>atype = ptype powerUp,
                                       expiresAt = pickTime env + POWERUP_DURATION\<rparr>,
                 powerUps := newPowerUps\<rparr>))"

text \<open>
  The function given to \<^verbatim>\<open>setSnake\<close>, with the updates it queues while it runs.
  When it invokes \<^verbatim>\<open>handleLifeLost\<close> it returns \<^verbatim>\<open>prevSnake\<close>, and the handler has
  queued \<^verbatim>\<open>setSnake(INITIAL_SNAKE)\<close> during that very update. Which of the two the
  snake ends with depends on when React runs the function. Run while rendering, its result
  is applied first and the update queued inside it afterwards: the snake is reset. Run
  eagerly, at the \<^verbatim>\<open>setSnake\<close> call, the update queued inside it enters the queue first
  and the function's own result, \<^verbatim>\<open>prevSnake\<close>, last: the snake is not reset. On an
  empty snake \<^verbatim>\<open>prevSnake[0]\<close> is \<^verbatim>\<open>undefined\<close>: every comparison with the new head
  is false, the one-element \<^verbatim>\<open>newSnake\<close> is popped, and only the direction is updated.
\<close>

definition snakeUpdater :: "bool \<Rightarrow> Env \<Rightarrow> App \<Rightarrow> App \<Rightarrow> App option" where
  "snakeUpdater eager env c t =
     (let prevSnake = snake t;
          t1 = t\<lparr>direction := nextDirection c\<rparr>;
          currentDir = nextDirection c
      in case prevSnake of
           [] \<Rightarrow> Some t1
         | head # rest \<Rightarrow>
             (case checkCollision (activePowerUp c) currentDir head prevSnake of
                Inl reason \<Rightarrow>
                  map_option (\<lambda>t2. if eager then t2\<lparr>snake := prevSnake\<rparr> else t2)
                    (handleLifeLost (foodDraws env) reason c t1)
              | Inr newHead \<Rightarrow>
                  map_option (\<lambda>t2. pickPowerUp env c t2 newHead) (eatOrPop env c t1 newHead)))"

definition spawnPowerUp :: "Env \<Rightarrow> App \<Rightarrow> App \<Rightarrow> App" where
  "spawnPowerUp env c t =
     (if spawnRoll env then
        (let prev = powerUps t
         in if length prev \<ge> 1 then t
            else (case generatePowerUp (powerUpDraws env) (typeRoll env) (snake c) (food c) prev of
                    None \<Rightarrow> t
                  | Some newItem \<Rightarrow> t\<lparr>powerUps := prev @ [newItem]\<rparr>))
      else t)"

text \<open>
  The two expiry checks at the top of the tick. They queue \<^verbatim>\<open>setActivePowerUp(null)\<close>
  and \<^verbatim>\<open>setCombo(0)\<close>; the rest of the tick still reads \<^verbatim>\<open>activePowerUp\<close> and
  \<^verbatim>\<open>combo\<close> through its closure, that is, from the state the tick started in.
\<close>

definition expireTimers :: "Env \<Rightarrow> App \<Rightarrow> App" where
  "expireTimers env s =
     (let now = tickTime env;
          t1 = (case activePowerUp s of
                  None \<Rightarrow> s
                | Some a \<Rightarrow> if now > expiresAt a then s\<lparr>activePowerUp := None\<rparr> else s);
          t2 = (if combo s > 0 \<and> now > comboExpiresAt s then t1\<lparr>combo := 0\<rparr> else t1)
      in t2)"

text \<open>
  Whether an expiry check of this tick has queued an update, and whether React runs the
  function given to \<^verbatim>\<open>setSnake\<close> eagerly: it does when the component had no work
  pending and the tick has queued nothing before the \<^verbatim>\<open>setSnake\<close> call.
\<close>

definition expiryQueued :: "Env \<Rightarrow> App \<Rightarrow> bool" where
  "expiryQueued env s =
     ((case activePowerUp s of None \<Rightarrow> False | Some a \<Rightarrow> tickTime env > expiresAt a)
      \<or> (combo s > 0 \<and> tickTime env > comboExpiresAt s))"

definition evaluatedEagerly :: "Env \<Rightarrow> App \<Rightarrow> bool" where
  "evaluatedEagerly env s = (fiberIdle env \<and> \<not> expiryQueued env s)"

text \<open>
  The tick. After the \<^verbatim>\<open>setSnake\<close> call it queues the spawn,
  \<^verbatim>\<open>setPowerUps(prev => ...)\<close>. When the function given to \<^verbatim>\<open>setSnake\<close> has run
  eagerly, the updates it queued (among them the \<^verbatim>\<open>setPowerUps\<close> of a pick-up) are
  ahead of the spawn in the queue; when it runs while rendering, the spawn is ahead of
  them.
\<close>

definition moveSnake :: "Env \<Rightarrow> App \<Rightarrow> App option" where
  "moveSnake env s =
     (if status s \<noteq> PLAYING then Some s
      else if evaluatedEagerly env s
      then map_option (spawnPowerUp env s) (snakeUpdater True env s (expireTimers env s))
      else snakeUpdater False env s (spawnPowerUp env s (expireTimers env s)))"

section \<open>Commands\<close>

definition resetGame :: "(nat \<Rightarrow> Coordinate) \<Rightarrow> App \<Rightarrow> App option" where
  "resetGame draws s =
     map_option
       (\<lambda>f. s\<lparr>snake := INITIAL_SNAKE, direction := INITIAL_DIRECTION,
               nextDirection := INITIAL_DIRECTION, score := 0, lives := MAX_LIVES,
               powerUps := [], activePowerUp := None, combo := 0, comboExpiresAt := 0,
               status := PLAYING, gameOverReason := None, food := f\<rparr>)
       (generateFood draws INITIAL_SNAKE [])"

definition handleExit :: "App \<Rightarrow> App" where
  "handleExit s =
     s\<lparr>status := IDLE, score := 0, lives := MAX_LIVES, powerUps := [],
       activePowerUp := None, combo := 0\<rparr>"

definition handlePause :: "int \<Rightarrow> App \<Rightarrow> App" where
  "handlePause now s =
     (let saved = (if combo s > 0 then max 0 (comboExpiresAt s - now) else 0)
      in s\<lparr>savedComboTime := saved, status := PAUSED\<rparr>)"

definition handleResume :: "int \<Rightarrow> App \<Rightarrow> App" where
  "handleResume now s =
     (let s1 = (if savedComboTime s > 0 then s\<lparr>comboExpiresAt := now + savedComboTime s\<rparr> else s)
      in s1\<lparr>status := PLAYING\<rparr>)"

definition isOpposite :: "Direction \<Rightarrow> Direction \<Rightarrow> bool" where
  "isOpposite newDir currentDir =
     ((newDir = UP \<and> currentDir = DOWN) \<or> (newDir = DOWN \<and> currentDir = UP)
      \<or> (newDir = LEFT \<and> currentDir = RIGHT) \<or> (newDir = RIGHT \<and> currentDir = LEFT))"

definition updateDirection :: "Direction \<Rightarrow> App \<Rightarrow> App" where
  "updateDirection newDir s =
     (if \<not> isOpposite newDir (direction s) then s\<lparr>nextDirection := newDir\<rparr> else s)"

text \<open>
  The key handler. \<open>Mapped d\<close> is a key that \<^verbatim>\<open>KEY_MAP\<close> sends to the direction \<open>d\<close>,
  \<open>OtherKey\<close> any key that is neither mapped nor Space nor Escape.
\<close>

datatype Key = Mapped Direction | Space | Escape | OtherKey

definition handleKeyDown :: "Key \<Rightarrow> int \<Rightarrow> (nat \<Rightarrow> Coordinate) \<Rightarrow> App \<Rightarrow> App option" where
  "handleKeyDown k now draws s =
     (case k of
        Mapped d \<Rightarrow> Some (updateDirection d s)
      | Space \<Rightarrow>
          if status s = PLAYING then Some (handlePause now s)
          else if status s = PAUSED then Some (handleResume now s)
          else if status s = IDLE \<or> status s = GAME_OVER then resetGame draws s
          else Some s
      | Escape \<Rightarrow> if status s = PLAYING then Some (handlePause now s) else Some s
      | OtherKey \<Rightarrow> Some s)"

section \<open>High score\<close>

text \<open>
  The two effects on the high score: the one run once after the first render, which
  loads the stored value, and the one run after every render in which \<^verbatim>\<open>score\<close> or
  \<^verbatim>\<open>highScore\<close> changed.
\<close>

definition loadHighScore :: "App \<Rightarrow> App" where
  "loadHighScore s = (case localStorage s of None \<Rightarrow> s | Some saved \<Rightarrow> s\<lparr>highScore := saved\<rparr>)"

definition highScoreEffect :: "App \<Rightarrow> App" where
  "highScoreEffect s =
     (if score s > highScore s
      then s\<lparr>highScore := score s, localStorage := Some (score s)\<rparr>
      else s)"

definition initialApp :: "int option \<Rightarrow> App" where
  "initialApp store =
     \<lparr>snake = INITIAL_SNAKE, food = \<lparr>cx = 5, cy = 5\<rparr>, powerUps = [], activePowerUp = None,
      direction = INITIAL_DIRECTION, nextDirection = INITIAL_DIRECTION, score = 0,
      highScore = 0, lives = MAX_LIVES, status = IDLE, gameOverReason = None, combo = 0,
      comboExpiresAt = 0, savedComboTime = 0, localStorage = store\<rparr>"

definition mount :: "int option \<Rightarrow> App" where
  "mount store = highScoreEffect (loadHighScore (initialApp store))"

text \<open>
  Everything that can happen to a mounted component: a tick of the interval timer, a key,
  a click on the pause button (rendered only while playing), on the resume, restart and
  exit buttons of the overlay, and a swipe or tap that resolves to a direction. A step is
  the event's handler followed by the high-score effect of the render it causes.
\<close>

datatype Event =
    Tick Env
  | KeyDown Key int "nat \<Rightarrow> Coordinate"
  | PauseClick int
  | ResumeClick int
  | RestartClick "nat \<Rightarrow> Coordinate"
  | ExitClick
  | Touch Direction

definition handleEvent :: "Event \<Rightarrow> App \<Rightarrow> App option" where
  "handleEvent e s =
     (case e of
        Tick env \<Rightarrow> moveSnake env s
      | KeyDown k now draws \<Rightarrow> handleKeyDown k now draws s
      | PauseClick now \<Rightarrow> if status s = PLAYING then Some (handlePause now s) else Some s
      | ResumeClick now \<Rightarrow> Some (handleResume now s)
      | RestartClick draws \<Rightarrow> resetGame draws s
      | ExitClick \<Rightarrow> Some (handleExit s)
      | Touch d \<Rightarrow> Some (updateDirection d s))"

definition step :: "Event \<Rightarrow> App \<Rightarrow> App option" where
  "step e s = map_option highScoreEffect (handleEvent e s)"

fun run :: "Event list \<Rightarrow> App \<Rightarrow> App option" where
  "run [] s = Some s"
| "run (e # es) s = (case step e s of None \<Rightarrow> None | Some s' \<Rightarrow> run es s')"

text \<open>The value the loading effect reads back from the store (0 when the key is absent).\<close>

definition storedHighScore :: "App \<Rightarrow> int" where
  "storedHighScore s = highScore (loadHighScore (s\<lparr>highScore := 0\<rparr>))"

section \<open>Concrete inputs\<close>

text \<open>
  A random source that visits the cells of the grid in turn, row by row, and a snake that
  covers the whole grid.
\<close>

definition cyclicDraws :: "nat \<Rightarrow> Coordinate" where
  "cyclicDraws n = \<lparr>cx = int (n mod 20), cy = int ((n div 20) mod 20)\<rparr>"

definition fullSnake :: "Coordinate list" where
  "fullSnake = concat (map (\<lambda>i. map (\<lambda>j. \<lparr>cx = i, cy = j\<rparr>) [0..19]) [0..19])"


text \<open>
  Draws for the power-up placement that land on the head of the initial snake nineteen
  times and on the empty corner cell from the twentieth attempt on.
\<close>

definition lateDraws :: "nat \<Rightarrow> Coordinate" where
  "lateDraws n = (if n < 19 then \<lparr>cx = 10, cy = 10\<rparr> else \<lparr>cx = 0, cy = 0\<rparr>)"

text \<open>
  A tick at time 1100 whose draws all land on the corner cell (0,0) and that spawns no
  power-up, and a state in play whose combo of 4 ran out at time 1000, with the food
  right above the head of a snake heading up.
\<close>

definition cornerEnv :: Env where
  "cornerEnv = \<lparr>tickTime = 1100, eatTime = 1100, pickTime = 1100,
                 foodDraws = (\<lambda>n. \<lparr>cx = 0, cy = 0\<rparr>), spawnRoll = False,
                 powerUpDraws = (\<lambda>n. \<lparr>cx = 0, cy = 0\<rparr>), typeRoll = False,
                 fiberIdle = False\<rparr>"

text \<open>
  The same tick fired while the component has no work pending, and the same tick fired at
  time 5100.
\<close>

definition idleEnv :: Env where
  "idleEnv = cornerEnv\<lparr>fiberIdle := True\<rparr>"

definition afterGhostEnv :: Env where
  "afterGhostEnv = cornerEnv\<lparr>tickTime := 5100, eatTime := 5100, pickTime := 5100\<rparr>"

definition expiredCombo :: App where
  "expiredCombo =
     \<lparr>snake = [\<lparr>cx = 10, cy = 10\<rparr>, \<lparr>cx = 10, cy = 11\<rparr>, \<lparr>cx = 10, cy = 12\<rparr>,
               \<lparr>cx = 10, cy = 13\<rparr>, \<lparr>cx = 10, cy = 14\<rparr>, \<lparr>cx = 10, cy = 15\<rparr>,
               \<lparr>cx = 10, cy = 16\<rparr>],
      food = \<lparr>cx = 10, cy = 9\<rparr>, powerUps = [], activePowerUp = None,
      direction = UP, nextDirection = UP, score = 40, highScore = 40, lives = 3,
      status = PLAYING, gameOverReason = None, combo = 4, comboExpiresAt = 1000,
      savedComboTime = 0, localStorage = Some 40\<rparr>"

text \<open>
  A snake at the left wall heading left while a GHOST power-up is held, and the same state
  without the power-up.
\<close>

definition ghostAtWall :: App where
  "ghostAtWall =
     \<lparr>snake = [\<lparr>cx = 0, cy = 5\<rparr>, \<lparr>cx = 1, cy = 5\<rparr>, \<lparr>cx = 2, cy = 5\<rparr>],
      food = \<lparr>cx = 7, cy = 7\<rparr>, powerUps = [],
      activePowerUp = Some \<lparr>atype = GHOST, expiresAt = 5000\<rparr>,
      direction = LEFT, nextDirection = LEFT, score = 0, highScore = 0, lives = 3,
      status = PLAYING, gameOverReason = None, combo = 0, comboExpiresAt = 0,
      savedComboTime = 0, localStorage = None\<rparr>"

definition wallNoGhost :: App where
  "wallNoGhost = ghostAtWall\<lparr>activePowerUp := None\<rparr>"

text \<open>
  The state at the wall with a power-up lying on the board, and with the food on a cell of
  the initial snake.
\<close>

definition wallWithPowerUp :: App where
  "wallWithPowerUp = wallNoGhost\<lparr>powerUps := [\<lparr>cx = 3, cy = 3, ptype = SLOW_TIME\<rparr>]\<rparr>"

definition foodUnderSpawn :: App where
  "foodUnderSpawn = wallNoGhost\<lparr>food := \<lparr>cx = 10, cy = 11\<rparr>\<rparr>"

text \<open>A random source that always draws the cell above the head of the initial snake.\<close>

definition aboveHead :: "nat \<Rightarrow> Coordinate" where
  "aboveHead n = \<lparr>cx = 10, cy = 9\<rparr>"

section \<open>Auxiliary predicates\<close>

text \<open>
  The condition under which the loop of \<^verbatim>\<open>generatePowerUp\<close> rejects a drawn cell: it is
  occupied by the snake or a power-up, or it is the food cell.
\<close>

definition rejected :: "Coordinate list \<Rightarrow> Coordinate \<Rightarrow> PowerUp list \<Rightarrow> Coordinate \<Rightarrow> bool" where
  "rejected currentSnake currentFood currentPowerUps newLoc =
     (isOccupied (cx newLoc) (cy newLoc) currentSnake currentPowerUps
      \<or> (cx newLoc = cx currentFood \<and> cy newLoc = cy currentFood))"

text \<open>
  What a tick decides in the state \<open>s\<close>, read off its collision checks: \<open>tickOutcome s\<close> is
  \<open>None\<close> when the tick does nothing to the snake (the game is not being played, or the
  snake is empty), \<open>Some (Inl reason)\<close> when it invokes \<^verbatim>\<open>handleLifeLost(reason)\<close>, and
  \<open>Some (Inr newHead)\<close> when the snake advances to \<open>newHead\<close>.
\<close>

definition tickOutcome :: "App \<Rightarrow> (Reason + Coordinate) option" where
  "tickOutcome s =
     (if status s \<noteq> PLAYING then None
      else (case snake s of
              [] \<Rightarrow> None
            | head # rest \<Rightarrow>
                Some (checkCollision (activePowerUp s) (nextDirection s) head (snake s))))"

text \<open>
  The state the updates queued by the function given to \<^verbatim>\<open>setSnake\<close> are applied to,
  and what the tick does after them: the spawn comes before them when the function runs
  while rendering and after them when it runs eagerly.
\<close>

definition tickBase :: "Env \<Rightarrow> App \<Rightarrow> App" where
  "tickBase env s =
     (if evaluatedEagerly env s then expireTimers env s
      else spawnPowerUp env s (expireTimers env s))\<lparr>direction := nextDirection s\<rparr>"

definition tickFinish :: "Env \<Rightarrow> App \<Rightarrow> App \<Rightarrow> App" where
  "tickFinish env s t = (if evaluatedEagerly env s then spawnPowerUp env s t else t)"

definition lifeLossInvoked :: "App \<Rightarrow> bool" where
  "lifeLossInvoked s = (case tickOutcome s of Some (Inl reason) \<Rightarrow> True | _ \<Rightarrow> False)"

definition foodEaten :: "App \<Rightarrow> bool" where
  "foodEaten s =
     (case tickOutcome s of
        Some (Inr newHead) \<Rightarrow> cx newHead = cx (food s) \<and> cy newHead = cy (food s)
      | _ \<Rightarrow> False)"

text \<open>
  The events that start a new game (the restart button, and Space while idle or after a
  game over), and the events that are ticks.
\<close>

definition startsNewGame :: "Event \<Rightarrow> App \<Rightarrow> bool" where
  "startsNewGame e s =
     (case e of
        RestartClick draws \<Rightarrow> True
      | KeyDown k now draws \<Rightarrow> k = Space \<and> (status s = IDLE \<or> status s = GAME_OVER)
      | _ \<Rightarrow> False)"

definition isTick :: "Event \<Rightarrow> bool" where
  "isTick e = (case e of Tick env \<Rightarrow> True | _ \<Rightarrow> False)"

text \<open>Every segment of the snake is a cell of the grid.\<close>

definition snakeInGrid :: "App \<Rightarrow> bool" where
  "snakeInGrid s = list_all (\<lambda>c. \<not> outOfGrid c) (snake s)"

section \<open>Food placement terminates exactly when a cell is free\<close>

lemma generateFoodLoop_free:
  assumes "generateFoodLoop draws i sn pus = Some c"
  shows "(\<exists>k. c = draws (i + k)) \<and> \<not> isOccupied (cx c) (cy c) sn pus"
proof (rule generateFoodLoop.raw_induct[OF _ assms])
  fix loop draws i sn pus c
  assume IH: "\<And>draws i sn pus c. loop draws i sn pus = Some c \<Longrightarrow>
                (\<exists>k. c = draws (i + k)) \<and> \<not> isOccupied (cx c) (cy c) sn pus"
    and body: "(let newFood = draws i in
                if isOccupied (cx newFood) (cy newFood) sn pus
                then loop draws (Suc i) sn pus else Some newFood) = Some c"
  show "(\<exists>k. c = draws (i + k)) \<and> \<not> isOccupied (cx c) (cy c) sn pus"
  proof (cases "isOccupied (cx (draws i)) (cy (draws i)) sn pus")
    case True
    with body have "loop draws (Suc i) sn pus = Some c" by (simp add: Let_def)
    then have "(\<exists>k. c = draws (Suc i + k)) \<and> \<not> isOccupied (cx c) (cy c) sn pus" by (rule IH)
    then obtain k where "c = draws (Suc i + k)" and f: "\<not> isOccupied (cx c) (cy c) sn pus" by blast
    then have "c = draws (i + Suc k)" by simp
    with f show ?thesis by blast
  next
    case False
    with body have "c = draws i" by (simp add: Let_def)
    then have "c = draws (i + 0)" by simp
    with False \<open>c = draws i\<close> show ?thesis by blast
  qed
qed

lemma generateFoodLoop_first:
  "\<not> isOccupied (cx (draws (i + k))) (cy (draws (i + k))) sn pus \<Longrightarrow>
   \<forall>j<k. isOccupied (cx (draws (i + j))) (cy (draws (i + j))) sn pus \<Longrightarrow>
   generateFoodLoop draws i sn pus = Some (draws (i + k))"
proof (induction k arbitrary: i)
  case 0
  then show ?case by (subst generateFoodLoop.simps) (simp add: Let_def)
next
  case (Suc k)
  from Suc.prems(2) have "isOccupied (cx (draws (i + 0))) (cy (draws (i + 0))) sn pus"
    by blast
  then have occ: "isOccupied (cx (draws i)) (cy (draws i)) sn pus" by simp
  have "generateFoodLoop draws (Suc i) sn pus = Some (draws (Suc i + k))"
  proof (rule Suc.IH)
    show "\<not> isOccupied (cx (draws (Suc i + k))) (cy (draws (Suc i + k))) sn pus"
      using Suc.prems(1) by simp
    show "\<forall>j<k. isOccupied (cx (draws (Suc i + j))) (cy (draws (Suc i + j))) sn pus"
    proof (intro allI impI)
      fix j assume "j < k"
      then have "Suc j < Suc k" by simp
      with Suc.prems(2) have "isOccupied (cx (draws (i + Suc j))) (cy (draws (i + Suc j))) sn pus" by blast
      then show "isOccupied (cx (draws (Suc i + j))) (cy (draws (Suc i + j))) sn pus" by simp
    qed
  qed
  with occ show ?case by (subst generateFoodLoop.simps) (simp add: Let_def)
qed



lemma generateFoodLoop_terminates:
  "\<not> isOccupied (cx (draws (i + k))) (cy (draws (i + k))) sn pus \<Longrightarrow>
   \<exists>c. generateFoodLoop draws i sn pus = Some c"
proof (induction k arbitrary: i)
  case 0
  then show ?case by (subst generateFoodLoop.simps) (simp add: Let_def)
next
  case (Suc k)
  from Suc.prems have "\<not> isOccupied (cx (draws (Suc i + k))) (cy (draws (Suc i + k))) sn pus"
    by simp
  then have "\<exists>c. generateFoodLoop draws (Suc i) sn pus = Some c" by (rule Suc.IH)
  then show ?case by (subst generateFoodLoop.simps) (simp add: Let_def)
qed

lemma generateFoodLoop_None:
  assumes "\<forall>n. isOccupied (cx (draws n)) (cy (draws n)) sn pus"
  shows "generateFoodLoop draws i sn pus = None"
proof (cases "generateFoodLoop draws i sn pus")
  case None
  then show ?thesis .
next
  case (Some c)
  then have "(\<exists>k. c = draws (i + k)) \<and> \<not> isOccupied (cx c) (cy c) sn pus"
    by (rule generateFoodLoop_free)
  with assms show ?thesis by blast
qed

text \<open>
  Claim C10. \<^verbatim>\<open>generateFood\<close> is rejection sampling without a cap on the attempts. The
  random source is a sequence of cells of the grid in which no cell of the grid is starved
  (a uniform source draws every cell with probability 1). Then, for every snake and
  power-up list that leave a cell of the grid unoccupied, the placement returns, and what
  it returns is a cell of the grid on which neither the snake nor a power-up lies; it is the
  first unoccupied cell drawn, however many draws that takes; and when no cell of the grid
  is free the loop never ends.
\<close>

theorem generateFood_rejection_sampling:
  assumes inGrid: "\<forall>n. \<not> outOfGrid (draws n)"
    and uniform: "\<forall>c. \<not> outOfGrid c \<longrightarrow> (\<exists>n. draws n = c)"
  shows "((\<exists>c. \<not> outOfGrid c \<and> \<not> isOccupied (cx c) (cy c) sn pus) \<longrightarrow>
            (\<exists>f. generateFood draws sn pus = Some f \<and> \<not> outOfGrid f
                 \<and> \<not> isOccupied (cx f) (cy f) sn pus))
       \<and> (\<forall>k. \<not> isOccupied (cx (draws k)) (cy (draws k)) sn pus
              \<and> (\<forall>j<k. isOccupied (cx (draws j)) (cy (draws j)) sn pus) \<longrightarrow>
              generateFood draws sn pus = Some (draws k))
       \<and> ((\<forall>c. \<not> outOfGrid c \<longrightarrow> isOccupied (cx c) (cy c) sn pus) \<longrightarrow>
            generateFood draws sn pus = None)"
proof (intro conjI impI allI)
  assume "\<exists>c. \<not> outOfGrid c \<and> \<not> isOccupied (cx c) (cy c) sn pus"
  then obtain c where c: "\<not> outOfGrid c" "\<not> isOccupied (cx c) (cy c) sn pus" by blast
  with uniform obtain n where "draws n = c" by blast
  with c have "\<not> isOccupied (cx (draws (0 + n))) (cy (draws (0 + n))) sn pus" by simp
  then obtain f where f: "generateFoodLoop draws 0 sn pus = Some f"
    using generateFoodLoop_terminates by blast
  then have "(\<exists>k. f = draws (0 + k)) \<and> \<not> isOccupied (cx f) (cy f) sn pus"
    by (rule generateFoodLoop_free)
  with inGrid have "\<not> outOfGrid f \<and> \<not> isOccupied (cx f) (cy f) sn pus" by blast
  with f show "\<exists>f. generateFood draws sn pus = Some f \<and> \<not> outOfGrid f
                 \<and> \<not> isOccupied (cx f) (cy f) sn pus"
    by (simp add: generateFood_def)
next
  fix k
  assume "\<not> isOccupied (cx (draws k)) (cy (draws k)) sn pus
              \<and> (\<forall>j<k. isOccupied (cx (draws j)) (cy (draws j)) sn pus)"
  then have "generateFoodLoop draws 0 sn pus = Some (draws (0 + k))"
    by (intro generateFoodLoop_first) simp_all
  then show "generateFood draws sn pus = Some (draws k)" by (simp add: generateFood_def)
next
  assume "\<forall>c. \<not> outOfGrid c \<longrightarrow> isOccupied (cx c) (cy c) sn pus"
  with inGrid have "\<forall>n. isOccupied (cx (draws n)) (cy (draws n)) sn pus" by blast
  then show "generateFood draws sn pus = None"
    by (simp add: generateFood_def generateFoodLoop_None)
qed

lemma cyclicDraws_inGrid: "\<not> outOfGrid (cyclicDraws n)"
  by (simp add: outOfGrid_def cyclicDraws_def GRID_SIZE_def not_le)

lemma cyclicDraws_uniform:
  assumes "\<not> outOfGrid c"
  shows "\<exists>n. cyclicDraws n = c"
proof -
  from assms have b: "0 \<le> cx c" "cx c < 20" "0 \<le> cy c" "cy c < 20"
    by (simp_all add: outOfGrid_def GRID_SIZE_def)
  define n where "n = nat (cx c) + 20 * nat (cy c)"
  have "n mod 20 = nat (cx c)" using b by (simp add: n_def)
  moreover have "n div 20 = nat (cy c)" using b by (simp add: n_def)
  ultimately have "cyclicDraws n = c" using b by (simp add: cyclicDraws_def)
  then show ?thesis ..
qed

lemma fullSnake_occupied:
  assumes "\<not> outOfGrid c"
  shows "isOccupied (cx c) (cy c) fullSnake pus"
proof -
  from assms have b: "0 \<le> cx c" "cx c \<le> 19" "0 \<le> cy c" "cy c \<le> 19"
    by (simp_all add: outOfGrid_def GRID_SIZE_def)
  have i: "cx c \<in> set [0..19]" and j: "cy c \<in> set [0..19]" using b by simp_all
  have "list_ex (\<lambda>i. list_ex (\<lambda>j. i = cx c \<and> j = cy c) [0..19]) [0..19]"
    unfolding list_ex_iff using i j by blast
  then have "list_ex (\<lambda>s. cx s = cx c \<and> cy s = cy c) fullSnake"
    unfolding fullSnake_def list_ex_iff set_concat set_map by simp
  then show ?thesis by (simp add: isOccupied_def)
qed

theorem generateFood_rejection_sampling_witness:
  "(\<exists>f. generateFood cyclicDraws INITIAL_SNAKE [] = Some f \<and> \<not> outOfGrid f
        \<and> \<not> isOccupied (cx f) (cy f) INITIAL_SNAKE [])
   \<and> generateFood cyclicDraws INITIAL_SNAKE [] = Some (cyclicDraws 0)
   \<and> generateFood cyclicDraws fullSnake [] = None"
proof (intro conjI)
  have a: "\<forall>n. \<not> outOfGrid (cyclicDraws n)" by (simp add: cyclicDraws_inGrid)
  have b: "\<forall>c. \<not> outOfGrid c \<longrightarrow> (\<exists>n. cyclicDraws n = c)" by (simp add: cyclicDraws_uniform)
  note initial = generateFood_rejection_sampling [OF a b, of INITIAL_SNAKE "[]"]
  note full = generateFood_rejection_sampling [OF a b, of fullSnake "[]"]
  have "\<not> outOfGrid \<lparr>cx = 0, cy = 0\<rparr>
       \<and> \<not> isOccupied (cx \<lparr>cx = 0, cy = 0\<rparr>) (cy \<lparr>cx = 0, cy = 0\<rparr>) INITIAL_SNAKE []"
    by (simp add: outOfGrid_def GRID_SIZE_def isOccupied_def INITIAL_SNAKE_def)
  then have "\<exists>c. \<not> outOfGrid c \<and> \<not> isOccupied (cx c) (cy c) INITIAL_SNAKE []" ..
  with initial [THEN conjunct1]
  show "\<exists>f. generateFood cyclicDraws INITIAL_SNAKE [] = Some f \<and> \<not> outOfGrid f
        \<and> \<not> isOccupied (cx f) (cy f) INITIAL_SNAKE []" by (rule mp)
  have "\<not> isOccupied (cx (cyclicDraws 0)) (cy (cyclicDraws 0)) INITIAL_SNAKE []
       \<and> (\<forall>j<0. isOccupied (cx (cyclicDraws j)) (cy (cyclicDraws j)) INITIAL_SNAKE [])"
    by (simp add: cyclicDraws_def isOccupied_def INITIAL_SNAKE_def)
  with initial [THEN conjunct2, THEN conjunct1, THEN spec, of 0]
  show "generateFood cyclicDraws INITIAL_SNAKE [] = Some (cyclicDraws 0)" by (rule mp)
  have "\<forall>c. \<not> outOfGrid c \<longrightarrow> isOccupied (cx c) (cy c) fullSnake []"
    by (simp add: fullSnake_occupied)
  with full [THEN conjunct2, THEN conjunct2]
  show "generateFood cyclicDraws fullSnake [] = None" by (rule mp)
qed

section \<open>Power-up placement\<close>

lemma generatePowerUpLoop_step:
  "generatePowerUpLoop draws sn fd pus a =
     (if rejected sn fd pus (draws a) \<and> Suc a < 20
      then generatePowerUpLoop draws sn fd pus (Suc a)
      else (draws a, Suc a))"
  by (subst generatePowerUpLoop.simps) (simp add: Let_def rejected_def)

lemma generatePowerUpLoop_exhausted:
  "a \<le> 19 \<Longrightarrow> \<forall>j. a \<le> j \<and> j < 19 \<longrightarrow> rejected sn fd pus (draws j) \<Longrightarrow>
   generatePowerUpLoop draws sn fd pus a = (draws 19, 20)"
proof (induction "19 - a" arbitrary: a)
  case 0
  then have "a = 19" by simp
  then show ?case by (subst generatePowerUpLoop_step) simp
next
  case (Suc n)
  then have lt: "a < 19" by simp
  with Suc.prems(2) have rej: "rejected sn fd pus (draws a)" by simp
  have "generatePowerUpLoop draws sn fd pus (Suc a) = (draws 19, 20)"
  proof (rule Suc.hyps(1))
    show "n = 19 - Suc a" using Suc.hyps(2) by simp
    show "Suc a \<le> 19" using lt by simp
    show "\<forall>j. Suc a \<le> j \<and> j < 19 \<longrightarrow> rejected sn fd pus (draws j)"
      using Suc.prems(2) by simp
  qed
  with rej lt show ?case by (subst generatePowerUpLoop_step) simp
qed

lemma generatePowerUpLoop_accepts:
  "a \<le> k \<Longrightarrow> \<not> rejected sn fd pus (draws k) \<Longrightarrow>
   \<forall>j. a \<le> j \<and> j < k \<longrightarrow> rejected sn fd pus (draws j) \<Longrightarrow> k < 19 \<Longrightarrow>
   generatePowerUpLoop draws sn fd pus a = (draws k, Suc k)"
proof (induction "k - a" arbitrary: a)
  case 0
  then have "a = k" by simp
  with "0.prems"(2) show ?case by (subst generatePowerUpLoop_step) simp
next
  case (Suc n)
  then have lt: "a < k" by simp
  with Suc.prems(3) have rej: "rejected sn fd pus (draws a)" by simp
  have "generatePowerUpLoop draws sn fd pus (Suc a) = (draws k, Suc k)"
  proof (rule Suc.hyps(1))
    show "n = k - Suc a" using Suc.hyps(2) by simp
    show "Suc a \<le> k" using lt by simp
    show "\<not> rejected sn fd pus (draws k)" by (rule Suc.prems(2))
    show "\<forall>j. Suc a \<le> j \<and> j < k \<longrightarrow> rejected sn fd pus (draws j)"
      using Suc.prems(3) by simp
    show "k < 19" by (rule Suc.prems(4))
  qed
  moreover have "Suc a < 20" using lt Suc.prems(4) by simp
  ultimately show ?case using rej by (subst generatePowerUpLoop_step) simp
qed

lemma generatePowerUp_None_iff:
  "generatePowerUp draws r sn fd [] = None \<longleftrightarrow> (\<forall>j<19. rejected sn fd [] (draws j))"
proof
  assume none: "generatePowerUp draws r sn fd [] = None"
  show "\<forall>j<19. rejected sn fd [] (draws j)"
  proof (rule ccontr)
    assume "\<not> (\<forall>j<19. rejected sn fd [] (draws j))"
    then have ex: "\<exists>j. j < 19 \<and> \<not> rejected sn fd [] (draws j)" by blast
    define k where "k = (LEAST j. j < 19 \<and> \<not> rejected sn fd [] (draws j))"
    from ex have k: "k < 19 \<and> \<not> rejected sn fd [] (draws k)"
      unfolding k_def by (rule LeastI_ex)
    have "\<forall>j. 0 \<le> j \<and> j < k \<longrightarrow> rejected sn fd [] (draws j)"
    proof (intro allI impI)
      fix j assume j: "0 \<le> j \<and> j < k"
      then have "j < (LEAST j. j < 19 \<and> \<not> rejected sn fd [] (draws j))"
        by (simp add: k_def)
      then have "\<not> (j < 19 \<and> \<not> rejected sn fd [] (draws j))"
        by (rule not_less_Least)
      with j k show "rejected sn fd [] (draws j)" by simp
    qed
    with k have "generatePowerUpLoop draws sn fd [] 0 = (draws k, Suc k)"
      by (intro generatePowerUpLoop_accepts) simp_all
    with k have "generatePowerUp draws r sn fd [] \<noteq> None"
      by (simp add: generatePowerUp_def)
    with none show False by simp
  qed
next
  assume "\<forall>j<19. rejected sn fd [] (draws j)"
  then have "generatePowerUpLoop draws sn fd [] 0 = (draws 19, 20)"
    by (intro generatePowerUpLoop_exhausted) simp_all
  then show "generatePowerUp draws r sn fd [] = None"
    by (simp add: generatePowerUp_def)
qed

lemma generatePowerUp_spawns:
  assumes "k < 19" and "\<not> rejected sn fd [] (draws k)"
    and "\<forall>j<k. rejected sn fd [] (draws j)"
  shows "generatePowerUp draws r sn fd [] =
           Some \<lparr>cx = cx (draws k), cy = cy (draws k),
                  ptype = (if r then GHOST else SLOW_TIME)\<rparr>"
proof -
  from assms(3) have "\<forall>j. 0 \<le> j \<and> j < k \<longrightarrow> rejected sn fd [] (draws j)" by simp
  with assms(1,2) have "generatePowerUpLoop draws sn fd [] 0 = (draws k, Suc k)"
    by (intro generatePowerUpLoop_accepts) simp_all
  with assms(1) show ?thesis by (simp add: generatePowerUp_def)
qed

text \<open>
  Claim C2, at the input where the code departs from it. Nineteen attempts land on the
  snake and the twentieth lands on a free cell: the loop ends with the free cell in hand
  and the attempt count at 20, and the test \<^verbatim>\<open>attempts >= 20\<close> after the loop discards
  it, so nothing is spawned. (By \<open>generatePowerUp_None_iff\<close> nothing is spawned exactly
  when the first nineteen attempts are rejected, whatever the twentieth draws.)
\<close>

theorem generatePowerUp_drops_twentieth_attempt:
  "list_all (\<lambda>j. rejected INITIAL_SNAKE \<lparr>cx = 5, cy = 5\<rparr> [] (lateDraws j)) [0..<19]
   \<and> \<not> rejected INITIAL_SNAKE \<lparr>cx = 5, cy = 5\<rparr> [] (lateDraws 19)
   \<and> generatePowerUp lateDraws True INITIAL_SNAKE \<lparr>cx = 5, cy = 5\<rparr> [] = None"
proof -
  have r: "\<forall>j<19. rejected INITIAL_SNAKE \<lparr>cx = 5, cy = 5\<rparr> [] (lateDraws j)"
    by (simp add: rejected_def lateDraws_def isOccupied_def INITIAL_SNAKE_def)
  then have "\<forall>j. 0 \<le> j \<and> j < 19 \<longrightarrow> rejected INITIAL_SNAKE \<lparr>cx = 5, cy = 5\<rparr> [] (lateDraws j)"
    by simp
  then have "generatePowerUpLoop lateDraws INITIAL_SNAKE \<lparr>cx = 5, cy = 5\<rparr> [] 0 = (lateDraws 19, 20)"
    by (intro generatePowerUpLoop_exhausted) simp_all
  then have "generatePowerUp lateDraws True INITIAL_SNAKE \<lparr>cx = 5, cy = 5\<rparr> [] = None"
    by (simp add: generatePowerUp_def)
  moreover have "\<not> rejected INITIAL_SNAKE \<lparr>cx = 5, cy = 5\<rparr> [] (lateDraws 19)"
    by (simp add: rejected_def lateDraws_def isOccupied_def INITIAL_SNAKE_def)
  moreover have "list_all (\<lambda>j. rejected INITIAL_SNAKE \<lparr>cx = 5, cy = 5\<rparr> [] (lateDraws j)) [0..<19]"
    unfolding list_all_iff using r by simp
  ultimately show ?thesis by simp
qed

section \<open>The tick, case by case\<close>

lemma generateFood_first_draw:
  "\<not> isOccupied (cx (draws 0)) (cy (draws 0)) sn pus \<Longrightarrow> generateFood draws sn pus = Some (draws 0)"
  unfolding generateFood_def by (subst generateFoodLoop.simps) (simp add: Let_def)

lemmas tick_defs = moveSnake_def expiryQueued_def evaluatedEagerly_def expireTimers_def
  snakeUpdater_def checkCollision_def
  selfCheck_def ghostActive_def moveHead_def outOfGrid_def wrapAround_def eatOrPop_def
  pickPowerUp_def spawnPowerUp_def handleLifeLost_def handleGameOver_def

lemmas const_defs = GRID_SIZE_def POWERUP_DURATION_def COMBO_TIMEOUT_MS_def
  POINTS_PER_FOOD_def MAX_LIVES_def INITIAL_SNAKE_def INITIAL_DIRECTION_def

subsection \<open>Frame lemmas\<close>

lemma pickPowerUp_frame [simp]:
  "snake (pickPowerUp env c t nh) = snake t"
  "food (pickPowerUp env c t nh) = food t"
  "direction (pickPowerUp env c t nh) = direction t"
  "nextDirection (pickPowerUp env c t nh) = nextDirection t"
  "score (pickPowerUp env c t nh) = score t"
  "highScore (pickPowerUp env c t nh) = highScore t"
  "lives (pickPowerUp env c t nh) = lives t"
  "status (pickPowerUp env c t nh) = status t"
  "gameOverReason (pickPowerUp env c t nh) = gameOverReason t"
  "combo (pickPowerUp env c t nh) = combo t"
  "comboExpiresAt (pickPowerUp env c t nh) = comboExpiresAt t"
  "savedComboTime (pickPowerUp env c t nh) = savedComboTime t"
  "localStorage (pickPowerUp env c t nh) = localStorage t"
  by (simp_all add: pickPowerUp_def Let_def split: option.splits)

lemma spawnPowerUp_frame [simp]:
  "snake (spawnPowerUp env c t) = snake t"
  "food (spawnPowerUp env c t) = food t"
  "activePowerUp (spawnPowerUp env c t) = activePowerUp t"
  "direction (spawnPowerUp env c t) = direction t"
  "nextDirection (spawnPowerUp env c t) = nextDirection t"
  "score (spawnPowerUp env c t) = score t"
  "highScore (spawnPowerUp env c t) = highScore t"
  "lives (spawnPowerUp env c t) = lives t"
  "status (spawnPowerUp env c t) = status t"
  "gameOverReason (spawnPowerUp env c t) = gameOverReason t"
  "combo (spawnPowerUp env c t) = combo t"
  "comboExpiresAt (spawnPowerUp env c t) = comboExpiresAt t"
  "savedComboTime (spawnPowerUp env c t) = savedComboTime t"
  "localStorage (spawnPowerUp env c t) = localStorage t"
  by (simp_all add: spawnPowerUp_def Let_def split: option.splits)

lemma expireTimers_frame [simp]:
  "snake (expireTimers env s) = snake s"
  "food (expireTimers env s) = food s"
  "powerUps (expireTimers env s) = powerUps s"
  "direction (expireTimers env s) = direction s"
  "nextDirection (expireTimers env s) = nextDirection s"
  "score (expireTimers env s) = score s"
  "highScore (expireTimers env s) = highScore s"
  "lives (expireTimers env s) = lives s"
  "status (expireTimers env s) = status s"
  "gameOverReason (expireTimers env s) = gameOverReason s"
  "comboExpiresAt (expireTimers env s) = comboExpiresAt s"
  "savedComboTime (expireTimers env s) = savedComboTime s"
  "localStorage (expireTimers env s) = localStorage s"
  by (simp_all add: expireTimers_def Let_def split: option.splits)

lemma expireTimers_combo:
  "combo (expireTimers env s) =
     (if combo s > 0 \<and> tickTime env > comboExpiresAt s then 0 else combo s)"
  by (simp add: expireTimers_def Let_def split: option.splits)

lemma moveSnake_not_playing:
  "tickOutcome s = None \<Longrightarrow> status s \<noteq> PLAYING \<Longrightarrow> moveSnake env s = Some s"
  by (simp add: moveSnake_def)

lemma tickBase_frame [simp]:
  "snake (tickBase env s) = snake s"
  "food (tickBase env s) = food s"
  "activePowerUp (tickBase env s) = activePowerUp (expireTimers env s)"
  "direction (tickBase env s) = nextDirection s"
  "nextDirection (tickBase env s) = nextDirection s"
  "score (tickBase env s) = score s"
  "highScore (tickBase env s) = highScore s"
  "lives (tickBase env s) = lives s"
  "status (tickBase env s) = status s"
  "gameOverReason (tickBase env s) = gameOverReason s"
  "combo (tickBase env s) = combo (expireTimers env s)"
  "comboExpiresAt (tickBase env s) = comboExpiresAt s"
  "savedComboTime (tickBase env s) = savedComboTime s"
  "localStorage (tickBase env s) = localStorage s"
  by (simp_all add: tickBase_def)

lemma tickFinish_frame [simp]:
  "snake (tickFinish env s t) = snake t"
  "food (tickFinish env s t) = food t"
  "activePowerUp (tickFinish env s t) = activePowerUp t"
  "direction (tickFinish env s t) = direction t"
  "nextDirection (tickFinish env s t) = nextDirection t"
  "score (tickFinish env s t) = score t"
  "highScore (tickFinish env s t) = highScore t"
  "lives (tickFinish env s t) = lives t"
  "status (tickFinish env s t) = status t"
  "gameOverReason (tickFinish env s t) = gameOverReason t"
  "combo (tickFinish env s t) = combo t"
  "comboExpiresAt (tickFinish env s t) = comboExpiresAt t"
  "savedComboTime (tickFinish env s t) = savedComboTime t"
  "localStorage (tickFinish env s t) = localStorage t"
  by (simp_all add: tickFinish_def)

lemma moveSnake_empty:
  "status s = PLAYING \<Longrightarrow> snake s = [] \<Longrightarrow>
   moveSnake env s = Some (tickFinish env s (tickBase env s))"
  by (simp add: moveSnake_def snakeUpdater_def tickBase_def tickFinish_def Let_def)

lemma moveSnake_lifeLost:
  "tickOutcome s = Some (Inl reason) \<Longrightarrow>
   moveSnake env s =
     map_option
       (\<lambda>t. tickFinish env s (if evaluatedEagerly env s then t\<lparr>snake := snake s\<rparr> else t))
       (handleLifeLost (foodDraws env) reason s (tickBase env s))"
  by (auto simp add: tickOutcome_def moveSnake_def snakeUpdater_def tickBase_def
        tickFinish_def Let_def option.map_comp comp_def split: if_splits list.splits)

lemma moveSnake_advance:
  "tickOutcome s = Some (Inr newHead) \<Longrightarrow>
   moveSnake env s =
     map_option (\<lambda>t. tickFinish env s (pickPowerUp env s t newHead))
       (eatOrPop env s (tickBase env s) newHead)"
  by (auto simp add: tickOutcome_def moveSnake_def snakeUpdater_def tickBase_def
        tickFinish_def Let_def option.map_comp comp_def split: if_splits list.splits)

text \<open>
  Claim C1, at the input where the code departs from it. The combo of 4 has run out when
  the tick eats: the expiry check queues \<^verbatim>\<open>setCombo(0)\<close> and the functional update
  \<^verbatim>\<open>setCombo(c => c + 1)\<close> leaves the counter at 1, but \<^verbatim>\<open>effectiveCombo\<close> is computed
  from the closure's \<^verbatim>\<open>combo\<close>, still 4, so the multiplier is 2 and the score grows by 20,
  not by the \<open>10 * (1 + 1 div 5) = 10\<close> of the counter after its increment.
\<close>

theorem moveSnake_multiplier_after_expiry:
  "foodEaten expiredCombo
   \<and> map_option combo (moveSnake cornerEnv expiredCombo) = Some 1
   \<and> map_option score (moveSnake cornerEnv expiredCombo) = Some (score expiredCombo + 20)
   \<and> map_option (\<lambda>s'. score s' = score expiredCombo + POINTS_PER_FOOD * (1 + combo s' div 5))
         (moveSnake cornerEnv expiredCombo) = Some False"
  by (simp add: foodEaten_def tickOutcome_def tick_defs const_defs cornerEnv_def
        expiredCombo_def generateFood_first_draw isOccupied_def Let_def)

text \<open>
  What the code computes in general: the multiplier of the counter the tick started with,
  plus one. It is the multiplier of the counter after the increment unless the combo
  expired at the top of this tick.
\<close>

lemma moveSnake_eat:
  assumes "tickOutcome s = Some (Inr newHead)"
    and "cx newHead = cx (food s) \<and> cy newHead = cy (food s)"
    and "moveSnake env s = Some s'"
  shows "score s' = score s + POINTS_PER_FOOD * (1 + (combo s + 1) div 5)"
    and "combo s' = (if combo s > 0 \<and> tickTime env > comboExpiresAt s then 0 else combo s) + 1"
    and "snake s' = newHead # snake s"
  using assms(2,3) unfolding moveSnake_advance[OF assms(1)]
  by (auto simp add: eatOrPop_def Let_def expireTimers_combo)

lemma moveSnake_pop:
  assumes "tickOutcome s = Some (Inr newHead)"
    and "\<not> (cx newHead = cx (food s) \<and> cy newHead = cy (food s))"
  shows "\<exists>s'. moveSnake env s = Some s' \<and> snake s' = butlast (newHead # snake s)
           \<and> score s' = score s \<and> lives s' = lives s \<and> status s' = status s"
  using assms(2) unfolding moveSnake_advance[OF assms(1)]
  by (auto simp add: eatOrPop_def Let_def)

lemma eatOrPop_frame:
  assumes "eatOrPop env c t nh = Some t'"
  shows "lives t' = lives t" "status t' = status t" "gameOverReason t' = gameOverReason t"
    "highScore t' = highScore t" "localStorage t' = localStorage t"
    "direction t' = direction t" "nextDirection t' = nextDirection t"
    "activePowerUp t' = activePowerUp t" "powerUps t' = powerUps t"
    "savedComboTime t' = savedComboTime t"
  using assms by (auto simp add: eatOrPop_def Let_def split: if_splits)

lemma eatOrPop_snake:
  assumes "eatOrPop env c t nh = Some t'"
  shows "snake t' = (if cx nh = cx (food c) \<and> cy nh = cy (food c) then nh # snake t
                     else butlast (nh # snake t))"
  using assms by (auto simp add: eatOrPop_def Let_def split: if_splits)

lemma eatOrPop_returns:
  assumes "cx nh = cx (food c) \<and> cy nh = cy (food c) \<longrightarrow>
           (\<exists>k. \<not> isOccupied (cx (foodDraws env k)) (cy (foodDraws env k)) (nh # snake t) (powerUps c))"
  shows "\<exists>t'. eatOrPop env c t nh = Some t'"
proof (cases "cx nh = cx (food c) \<and> cy nh = cy (food c)")
  case True
  with assms obtain k where
    "\<not> isOccupied (cx (foodDraws env (0 + k))) (cy (foodDraws env (0 + k))) (nh # snake t) (powerUps c)"
    by auto
  then have "\<exists>f. generateFoodLoop (foodDraws env) 0 (nh # snake t) (powerUps c) = Some f"
    by (rule generateFoodLoop_terminates)
  with True show ?thesis by (auto simp add: eatOrPop_def Let_def generateFood_def)
next
  case False
  then show ?thesis by (auto simp add: eatOrPop_def Let_def)
qed

lemma tickOutcome_cases:
  obtains (idle) "status s \<noteq> PLAYING" "tickOutcome s = None"
  | (empty) "status s = PLAYING" "snake s = []" "tickOutcome s = None"
  | (lost) reason where "status s = PLAYING" "tickOutcome s = Some (Inl reason)"
  | (advance) newHead where "status s = PLAYING" "tickOutcome s = Some (Inr newHead)"
proof (cases "status s = PLAYING")
  case False
  then show ?thesis using idle by (simp add: tickOutcome_def)
next
  case playing: True
  show ?thesis
  proof (cases "snake s")
    case Nil
    with playing show ?thesis using empty by (simp add: tickOutcome_def)
  next
    case (Cons h rest)
    show ?thesis
    proof (cases "checkCollision (activePowerUp s) (nextDirection s) h (snake s)")
      case (Inl r)
      with playing Cons show ?thesis using lost[of r] by (simp add: tickOutcome_def)
    next
      case (Inr nh)
      with playing Cons show ?thesis using advance[of nh] by (simp add: tickOutcome_def)
    qed
  qed
qed

lemma moveSnake_no_loss_frame:
  assumes "moveSnake env s = Some s'" and "\<not> lifeLossInvoked s"
  shows "lives s' = lives s" "status s' = status s" "gameOverReason s' = gameOverReason s"
proof -
  have "lives s' = lives s \<and> status s' = status s \<and> gameOverReason s' = gameOverReason s"
  proof (cases s rule: tickOutcome_cases)
    case idle
    with assms(1) show ?thesis by (simp add: moveSnake_def)
  next
    case empty
    with assms(1) show ?thesis by (auto simp add: moveSnake_empty)
  next
    case (lost reason)
    with assms(2) show ?thesis by (simp add: lifeLossInvoked_def)
  next
    case (advance newHead)
    with assms(1) obtain t' where
      t': "eatOrPop env s (tickBase env s) newHead = Some t'"
      and s': "s' = tickFinish env s (pickPowerUp env s t' newHead)"
      by (auto simp add: moveSnake_advance)
    from eatOrPop_frame(1-3)[OF t'] s' show ?thesis by simp
  qed
  then show "lives s' = lives s" "status s' = status s" "gameOverReason s' = gameOverReason s"
    by simp_all
qed

lemma moveSnake_no_loss_length:
  assumes "moveSnake env s = Some s'" and "\<not> lifeLossInvoked s"
  shows "length (snake s') = (if foodEaten s then length (snake s) + 1 else length (snake s))"
proof (cases s rule: tickOutcome_cases)
  case idle
  with assms(1) show ?thesis by (simp add: moveSnake_def foodEaten_def)
next
  case empty
  with assms(1) show ?thesis by (auto simp add: moveSnake_empty foodEaten_def)
next
  case (lost reason)
  with assms(2) show ?thesis by (simp add: lifeLossInvoked_def)
next
  case (advance newHead)
  with assms(1) obtain t' where
    t': "eatOrPop env s (tickBase env s) newHead = Some t'"
    and s': "s' = tickFinish env s (pickPowerUp env s t' newHead)"
    by (auto simp add: moveSnake_advance)
  from eatOrPop_snake[OF t'] s' advance(2) show ?thesis by (simp add: foodEaten_def)
qed

section \<open>Collisions\<close>

lemma selfCheck_ghost: "ghostActive ap \<Longrightarrow> selfCheck ap nh sn = Inr nh"
  by (simp add: selfCheck_def)

lemma checkCollision_ghost:
  "ghostActive ap \<Longrightarrow>
   checkCollision ap d h sn =
     Inr (if outOfGrid (moveHead d h) then wrapAround (moveHead d h) else moveHead d h)"
  by (simp add: checkCollision_def selfCheck_ghost Let_def)

text \<open>
  Claim C9. When the \<^verbatim>\<open>activePowerUp\<close> cell holds a GHOST at the start of a tick, the
  collision checks of that tick never answer \<open>SELF\<close>: the self check is skipped. So the
  tick invokes no \<^verbatim>\<open>handleLifeLost('SELF')\<close> (with a GHOST it invokes no life loss at all,
  the wall check wraps), and whatever state the tick returns has the lives, the status and
  the game-over reason it started with. This holds in every state, reachable or not.
\<close>

theorem ghost_never_loses_life_to_self:
  assumes "ghostActive (activePowerUp s)"
  shows "checkCollision (activePowerUp s) d h sn \<noteq> Inl SELF
       \<and> tickOutcome s \<noteq> Some (Inl SELF)
       \<and> \<not> lifeLossInvoked s
       \<and> (\<forall>s'. moveSnake env s = Some s' \<longrightarrow>
             lives s' = lives s \<and> status s' = status s \<and> gameOverReason s' = gameOverReason s)"
proof -
  have c: "\<And>d h sn. \<exists>nh. checkCollision (activePowerUp s) d h sn = Inr nh"
    using assms by (simp add: checkCollision_ghost)
  then have 1: "checkCollision (activePowerUp s) d h sn \<noteq> Inl SELF"
    by (metis Inl_Inr_False)
  have 2: "\<not> lifeLossInvoked s"
  proof (cases s rule: tickOutcome_cases)
    case (lost reason)
    then obtain h rest where "snake s = h # rest"
      and "checkCollision (activePowerUp s) (nextDirection s) h (snake s) = Inl reason"
      by (auto simp add: tickOutcome_def split: if_splits list.splits)
    with c[of "nextDirection s" h "snake s"] show ?thesis by simp
  qed (simp_all add: lifeLossInvoked_def)
  then have 3: "tickOutcome s \<noteq> Some (Inl SELF)"
    by (auto simp add: lifeLossInvoked_def)
  from 1 2 3 moveSnake_no_loss_frame[OF _ 2] show ?thesis by blast
qed

theorem ghost_never_loses_life_to_self_witness:
  "ghostActive (activePowerUp ghostAtWall)
   \<and> tickOutcome ghostAtWall \<noteq> Some (Inl SELF)
   \<and> (\<exists>s'. moveSnake cornerEnv ghostAtWall = Some s' \<and> lives s' = 3 \<and> status s' = PLAYING)"
proof -
  have g: "ghostActive (activePowerUp ghostAtWall)"
    by (simp add: ghostActive_def ghostAtWall_def)
  have e: "moveSnake cornerEnv ghostAtWall = Some (the (moveSnake cornerEnv ghostAtWall))"
    by (simp add: tick_defs const_defs cornerEnv_def ghostAtWall_def Let_def)
  from ghost_never_loses_life_to_self[OF g, of LEFT "\<lparr>cx = 0, cy = 5\<rparr>" "[]" cornerEnv] e
  have "tickOutcome ghostAtWall \<noteq> Some (Inl SELF)"
    and "lives (the (moveSnake cornerEnv ghostAtWall)) = lives ghostAtWall"
    and "status (the (moveSnake cornerEnv ghostAtWall)) = status ghostAtWall"
    by blast+
  moreover have "lives ghostAtWall = 3" "status ghostAtWall = PLAYING"
    by (simp_all add: ghostAtWall_def)
  ultimately show ?thesis using g e by metis
qed

text \<open>
  Claim C7. A tick that returns without invoking a life loss leaves the snake one segment
  longer when the new head is on the food cell and as long as before otherwise, so its
  length never decreases; and every event other than a tick or the start of a new game
  (pause, resume, direction commands, exit) leaves the snake as it is. The snake is
  replaced only by a life loss or a new game.
\<close>

theorem snake_length_never_decreases:
  "(\<forall>env s'. moveSnake env s = Some s' \<and> \<not> lifeLossInvoked s \<longrightarrow>
       length (snake s') = (if foodEaten s then length (snake s) + 1 else length (snake s))
       \<and> length (snake s) \<le> length (snake s'))
   \<and> (\<forall>e s'. handleEvent e s = Some s' \<and> \<not> isTick e \<and> \<not> startsNewGame e s \<longrightarrow>
         snake s' = snake s)"
proof (intro conjI allI impI)
  fix env s'
  assume a: "moveSnake env s = Some s' \<and> \<not> lifeLossInvoked s"
  then have l: "length (snake s') = (if foodEaten s then length (snake s) + 1 else length (snake s))"
    using moveSnake_no_loss_length by blast
  then show "length (snake s') = (if foodEaten s then length (snake s) + 1 else length (snake s))" .
  from l show "length (snake s) \<le> length (snake s')" by (simp split: if_splits)
next
  fix e s'
  assume a: "handleEvent e s = Some s' \<and> \<not> isTick e \<and> \<not> startsNewGame e s"
  show "snake s' = snake s"
  proof (cases e)
    case (Tick env)
    with a show ?thesis by (simp add: isTick_def)
  next
    case (KeyDown k now draws)
    with a show ?thesis
      by (cases k)
         (auto simp add: handleEvent_def handleKeyDown_def startsNewGame_def updateDirection_def
            handlePause_def handleResume_def Let_def split: if_splits)
  next
    case (PauseClick now)
    with a show ?thesis by (auto simp add: handleEvent_def handlePause_def Let_def split: if_splits)
  next
    case (ResumeClick now)
    with a show ?thesis by (auto simp add: handleEvent_def handleResume_def Let_def split: if_splits)
  next
    case (RestartClick draws)
    with a show ?thesis by (simp add: startsNewGame_def)
  next
    case ExitClick
    with a show ?thesis by (auto simp add: handleEvent_def handleExit_def)
  next
    case (Touch d)
    with a show ?thesis by (auto simp add: handleEvent_def updateDirection_def split: if_splits)
  qed
qed

theorem snake_length_never_decreases_witness:
  "\<not> lifeLossInvoked expiredCombo \<and> foodEaten expiredCombo
   \<and> (\<exists>s'. moveSnake cornerEnv expiredCombo = Some s' \<and> length (snake s') = 8)
   \<and> \<not> lifeLossInvoked ghostAtWall \<and> \<not> foodEaten ghostAtWall
   \<and> (\<exists>s'. moveSnake cornerEnv ghostAtWall = Some s' \<and> length (snake s') = 3)
   \<and> handleEvent (PauseClick 7) expiredCombo = Some (handlePause 7 expiredCombo)
   \<and> snake (handlePause 7 expiredCombo) = snake expiredCombo"
proof -
  have n1: "\<not> lifeLossInvoked expiredCombo" and f1: "foodEaten expiredCombo"
    by (simp_all add: lifeLossInvoked_def foodEaten_def tickOutcome_def tick_defs const_defs
          expiredCombo_def Let_def)
  have e1: "moveSnake cornerEnv expiredCombo = Some (the (moveSnake cornerEnv expiredCombo))"
    by (simp add: tick_defs const_defs cornerEnv_def expiredCombo_def generateFood_first_draw
          isOccupied_def Let_def)
  have n2: "\<not> lifeLossInvoked ghostAtWall" and f2: "\<not> foodEaten ghostAtWall"
    by (simp_all add: lifeLossInvoked_def foodEaten_def tickOutcome_def tick_defs const_defs
          ghostAtWall_def Let_def)
  have e2: "moveSnake cornerEnv ghostAtWall = Some (the (moveSnake cornerEnv ghostAtWall))"
    by (simp add: tick_defs const_defs cornerEnv_def ghostAtWall_def Let_def)
  have p: "handleEvent (PauseClick 7) expiredCombo = Some (handlePause 7 expiredCombo)"
    by (simp add: handleEvent_def expiredCombo_def)
  have l0: "length (snake expiredCombo) = 7" "length (snake ghostAtWall) = 3"
    by (simp_all add: expiredCombo_def ghostAtWall_def)
  note T1 = snake_length_never_decreases[of expiredCombo]
  note T2 = snake_length_never_decreases[of ghostAtWall]
  from T1 e1 n1 f1
  have "length (snake (the (moveSnake cornerEnv expiredCombo))) = length (snake expiredCombo) + 1"
    by metis
  with l0 have "length (snake (the (moveSnake cornerEnv expiredCombo))) = 8" by simp
  with e1 have r1: "\<exists>s'. moveSnake cornerEnv expiredCombo = Some s' \<and> length (snake s') = 8" by metis
  from T2 e2 n2 f2 l0 have "length (snake (the (moveSnake cornerEnv ghostAtWall))) = 3" by metis
  with e2 have r2: "\<exists>s'. moveSnake cornerEnv ghostAtWall = Some s' \<and> length (snake s') = 3" by metis
  have "\<not> isTick (PauseClick 7) \<and> \<not> startsNewGame (PauseClick 7) expiredCombo"
    by (simp add: isTick_def startsNewGame_def)
  with T1 p have r3: "snake (handlePause 7 expiredCombo) = snake expiredCombo" by blast
  from n1 f1 r1 n2 f2 r2 p r3 show ?thesis by blast
qed

lemma wrapAround_mod:
  assumes "\<not> outOfGrid h" and "outOfGrid (moveHead d h)"
  shows "wrapAround (moveHead d h) =
           \<lparr>cx = cx (moveHead d h) mod GRID_SIZE, cy = cy (moveHead d h) mod GRID_SIZE\<rparr>"
proof -
  obtain a b where h: "h = \<lparr>cx = a, cy = b\<rparr>" by (cases h) simp
  from assms(1) have r: "0 \<le> a" "a < 20" "0 \<le> b" "b < 20"
    by (simp_all add: h outOfGrid_def GRID_SIZE_def)
  then have m: "a mod 20 = a" "b mod 20 = b" by simp_all
  show ?thesis
  proof (cases d)
    case UP
    with assms(2) r have "b = 0" by (simp add: h outOfGrid_def moveHead_def GRID_SIZE_def)
    with UP r m show ?thesis
      by (simp add: h outOfGrid_def moveHead_def wrapAround_def GRID_SIZE_def Let_def)
  next
    case DOWN
    with assms(2) r have "b = 19" by (simp add: h outOfGrid_def moveHead_def GRID_SIZE_def)
    with DOWN r m show ?thesis
      by (simp add: h outOfGrid_def moveHead_def wrapAround_def GRID_SIZE_def Let_def)
  next
    case LEFT
    with assms(2) r have "a = 0" by (simp add: h outOfGrid_def moveHead_def GRID_SIZE_def)
    with LEFT r m show ?thesis
      by (simp add: h outOfGrid_def moveHead_def wrapAround_def GRID_SIZE_def Let_def)
  next
    case RIGHT
    with assms(2) r have "a = 19" by (simp add: h outOfGrid_def moveHead_def GRID_SIZE_def)
    with RIGHT r m show ?thesis
      by (simp add: h outOfGrid_def moveHead_def wrapAround_def GRID_SIZE_def Let_def)
  qed
qed

lemma handleLifeLost_snake:
  assumes "handleLifeLost draws reason c t = Some t'"
  shows "snake t' = (if lives c > 1 then INITIAL_SNAKE else snake t)"
  using assms
  by (auto simp add: handleLifeLost_def handleGameOver_def Let_def split: if_splits)

text \<open>
  The wall check reads the \<^verbatim>\<open>activePowerUp\<close> cell through the closure of the tick: for a
  head in the grid whose move leaves the grid, the snake advances to the moved head with
  each coordinate taken modulo \<open>GRID_SIZE\<close> when that cell holds a GHOST, and
  \<^verbatim>\<open>handleLifeLost('WALL')\<close> is invoked when it does not.
\<close>

lemma wall_check_reads_closure:
  assumes "status s = PLAYING" and "snake s = h # rest" and "\<not> outOfGrid h"
    and "newHead = moveHead (nextDirection s) h" and "outOfGrid newHead"
  shows "tickOutcome s =
           (if ghostActive (activePowerUp s)
            then Some (Inr \<lparr>cx = cx newHead mod GRID_SIZE, cy = cy newHead mod GRID_SIZE\<rparr>)
            else Some (Inl WALL))"
proof (cases "ghostActive (activePowerUp s)")
  case True
  have "wrapAround newHead =
          \<lparr>cx = cx newHead mod GRID_SIZE, cy = cy newHead mod GRID_SIZE\<rparr>"
    using assms(3,4,5) wrapAround_mod by simp
  with True assms(1,2,4,5) show ?thesis
    by (simp add: tickOutcome_def checkCollision_ghost)
next
  case False
  with assms(1,2,4,5) show ?thesis
    by (simp add: tickOutcome_def checkCollision_def Let_def)
qed

text \<open>
  Claim C5, at the input where the code departs from it. The GHOST expired at time 5000
  and the tick fires at 5100 with the head at the left wall, heading left. The expiry check
  of the tick queues \<^verbatim>\<open>setActivePowerUp(null)\<close>, so the power-up is no longer active, but
  the wall check reads the cell through the closure, where it still holds the GHOST: the
  head wraps to the right edge, no life is lost, and the state after the tick has no
  active power-up.
\<close>

theorem moveSnake_wraps_after_ghost_expired:
  "activePowerUp ghostAtWall = Some \<lparr>atype = GHOST, expiresAt = 5000\<rparr>
   \<and> tickTime afterGhostEnv = 5100
   \<and> map_option activePowerUp (moveSnake afterGhostEnv ghostAtWall) = Some None
   \<and> map_option snake (moveSnake afterGhostEnv ghostAtWall)
       = Some [\<lparr>cx = 19, cy = 5\<rparr>, \<lparr>cx = 0, cy = 5\<rparr>, \<lparr>cx = 1, cy = 5\<rparr>]
   \<and> map_option lives (moveSnake afterGhostEnv ghostAtWall) = Some (lives ghostAtWall)"
  by (simp add: tick_defs const_defs afterGhostEnv_def cornerEnv_def ghostAtWall_def Let_def)

section \<open>Life loss, pause and resume\<close>

lemma isOccupied_no_powerUps:
  "isOccupied a b sn [] = list_ex (\<lambda>s. cx s = a \<and> cy s = b) sn"
  by (simp add: isOccupied_def)

text \<open>
  The updates \<^verbatim>\<open>handleLifeLost\<close> queues when the render it closes over has more than one
  life, applied to the state \<open>t\<close> the queue has reached.
\<close>

lemma handleLifeLost_updates:
  assumes "lives c > 1" and "handleLifeLost draws reason c t = Some t'"
  shows "lives t' = lives t - 1 \<and> combo t' = 0 \<and> snake t' = INITIAL_SNAKE
         \<and> direction t' = INITIAL_DIRECTION \<and> nextDirection t' = INITIAL_DIRECTION
         \<and> activePowerUp t' = None \<and> powerUps t' = powerUps t
         \<and> score t' = score t \<and> status t' = status t
         \<and> highScore t' = highScore t \<and> gameOverReason t' = gameOverReason t
         \<and> comboExpiresAt t' = comboExpiresAt t \<and> savedComboTime t' = savedComboTime t
         \<and> localStorage t' = localStorage t
         \<and> (if isOccupied (cx (food t)) (cy (food t)) INITIAL_SNAKE []
             then \<not> isOccupied (cx (food t')) (cy (food t')) INITIAL_SNAKE []
             else food t' = food t)"
proof (cases "isOccupied (cx (food t)) (cy (food t)) INITIAL_SNAKE []")
  case True
  with assms obtain f where f: "generateFood draws INITIAL_SNAKE [] = Some f"
    and t': "t' = t\<lparr>lives := lives t - 1, combo := 0, snake := INITIAL_SNAKE,
                  direction := INITIAL_DIRECTION, nextDirection := INITIAL_DIRECTION,
                  activePowerUp := None, food := f\<rparr>"
    by (auto simp add: handleLifeLost_def isOccupied_no_powerUps Let_def)
  from f have "\<not> isOccupied (cx f) (cy f) INITIAL_SNAKE []"
    unfolding generateFood_def using generateFoodLoop_free by blast
  with True t' show ?thesis by simp
next
  case False
  with assms have "t' = t\<lparr>lives := lives t - 1, combo := 0, snake := INITIAL_SNAKE,
                  direction := INITIAL_DIRECTION, nextDirection := INITIAL_DIRECTION,
                  activePowerUp := None\<rparr>"
    by (auto simp add: handleLifeLost_def isOccupied_no_powerUps Let_def)
  with False show ?thesis by simp
qed

lemma handleLifeLost_returns:
  assumes "lives c > 1"
    and "isOccupied (cx (food t)) (cy (food t)) INITIAL_SNAKE [] \<longrightarrow>
           (\<exists>k. \<not> isOccupied (cx (draws k)) (cy (draws k)) INITIAL_SNAKE [])"
  shows "\<exists>t'. handleLifeLost draws reason c t = Some t'"
proof (cases "isOccupied (cx (food t)) (cy (food t)) INITIAL_SNAKE []")
  case True
  with assms(2) obtain k where
    "\<not> isOccupied (cx (draws (0 + k))) (cy (draws (0 + k))) INITIAL_SNAKE []"
    by auto
  then have "\<exists>f. generateFoodLoop draws 0 INITIAL_SNAKE [] = Some f"
    by (rule generateFoodLoop_terminates)
  with True assms(1) show ?thesis
    by (auto simp add: handleLifeLost_def generateFood_def isOccupied_no_powerUps Let_def)
next
  case False
  with assms(1) show ?thesis
    by (simp add: handleLifeLost_def isOccupied_no_powerUps Let_def)
qed

lemma spawnPowerUp_powerUps:
  "powerUps t = powerUps u \<Longrightarrow>
   powerUps (spawnPowerUp env c t) = powerUps (spawnPowerUp env c u)"
  by (simp add: spawnPowerUp_def Let_def split: option.splits)

lemma spawnPowerUp_occupied_board:
  "powerUps t \<noteq> [] \<Longrightarrow> powerUps (spawnPowerUp env c t) = powerUps t"
  by (cases "powerUps t") (simp_all add: spawnPowerUp_def Let_def)

text \<open>
  Claim C4 as stated has the whole power-up state return to the initial configuration,
  in which no power-up lies on the board. \<^verbatim>\<open>handleLifeLost\<close> calls
  \<^verbatim>\<open>setActivePowerUp(null)\<close> and never \<^verbatim>\<open>setPowerUps\<close>: a power-up on the board
  survives the tick that loses a life at the wall, in whichever order React applies the
  updates of the tick.
\<close>

theorem life_loss_keeps_board_powerUp:
  "tickOutcome wallWithPowerUp = Some (Inl WALL)
   \<and> lives wallWithPowerUp > 1
   \<and> powerUps (initialApp None) = []
   \<and> map_option lives (moveSnake cornerEnv wallWithPowerUp) = Some 2
   \<and> map_option powerUps (moveSnake cornerEnv wallWithPowerUp)
       = Some [\<lparr>cx = 3, cy = 3, ptype = SLOW_TIME\<rparr>]
   \<and> map_option powerUps (moveSnake idleEnv wallWithPowerUp)
       = Some [\<lparr>cx = 3, cy = 3, ptype = SLOW_TIME\<rparr>]"
  by (simp add: tickOutcome_def tick_defs const_defs idleEnv_def cornerEnv_def
        wallWithPowerUp_def wallNoGhost_def ghostAtWall_def initialApp_def Let_def)

text \<open>
  The snake after a life loss depends on the order in which React applies the updates:
  when the function given to \<^verbatim>\<open>setSnake\<close> is evaluated eagerly, its own result
  \<^verbatim>\<open>prevSnake\<close> is applied after the \<^verbatim>\<open>setSnake(INITIAL_SNAKE)\<close> queued inside it, and
  the snake stays at the wall with one life less.
\<close>

lemma eager_life_loss_keeps_snake:
  "evaluatedEagerly idleEnv wallNoGhost
   \<and> map_option lives (moveSnake idleEnv wallNoGhost) = Some 2
   \<and> map_option snake (moveSnake idleEnv wallNoGhost) = Some (snake wallNoGhost)"
  by (simp add: tick_defs const_defs idleEnv_def cornerEnv_def wallNoGhost_def
        ghostAtWall_def Let_def)

text \<open>
  Claim C4, amended. Life loss is invoked only by a tick, from inside the function given
  to \<^verbatim>\<open>setSnake\<close>. For a tick that invokes it in a state with more than one life, every
  state the tick returns has exactly one life less, combo 0, the direction and the pending
  direction at their initial value and no active power-up; the board's power-ups are what
  the spawn step of the tick makes of the ones before (unchanged when there was one); the
  score, the status (PLAYING) and every other cell are as before; the food is as before
  unless it lay under the initial snake, and then the new food cell is not under the
  initial snake; and the snake is the initial snake when React runs the function while
  rendering. The tick returns at once when the food is kept, and otherwise as soon as the
  random source draws a cell that is not under the initial snake.
\<close>

theorem life_loss_with_lives_left:
  assumes "tickOutcome s = Some (Inl reason)" and "lives s > 1"
  shows "(\<forall>s'. moveSnake env s = Some s' \<longrightarrow>
            lives s' = lives s - 1 \<and> combo s' = 0
            \<and> direction s' = INITIAL_DIRECTION \<and> nextDirection s' = INITIAL_DIRECTION
            \<and> activePowerUp s' = None
            \<and> powerUps s' = powerUps (spawnPowerUp env s s)
            \<and> (powerUps s \<noteq> [] \<longrightarrow> powerUps s' = powerUps s)
            \<and> score s' = score s \<and> status s' = PLAYING
            \<and> highScore s' = highScore s \<and> gameOverReason s' = gameOverReason s
            \<and> comboExpiresAt s' = comboExpiresAt s \<and> savedComboTime s' = savedComboTime s
            \<and> localStorage s' = localStorage s
            \<and> (if isOccupied (cx (food s)) (cy (food s)) INITIAL_SNAKE []
                then \<not> isOccupied (cx (food s')) (cy (food s')) INITIAL_SNAKE []
                else food s' = food s)
            \<and> (\<not> evaluatedEagerly env s \<longrightarrow> snake s' = INITIAL_SNAKE))
       \<and> ((isOccupied (cx (food s)) (cy (food s)) INITIAL_SNAKE [] \<longrightarrow>
              (\<exists>k. \<not> isOccupied (cx (foodDraws env k)) (cy (foodDraws env k)) INITIAL_SNAKE []))
           \<longrightarrow> (\<exists>s'. moveSnake env s = Some s'))"
proof (rule conjI; intro allI impI)
  fix s' assume r: "moveSnake env s = Some s'"
  from assms(1) have playing: "status s = PLAYING"
    by (simp add: tickOutcome_def split: if_splits)
  from r[unfolded moveSnake_lifeLost[OF assms(1)]] obtain t' where
    t': "handleLifeLost (foodDraws env) reason s (tickBase env s) = Some t'"
    and s': "s' = tickFinish env s (if evaluatedEagerly env s then t'\<lparr>snake := snake s\<rparr> else t')"
    by auto
  note u = handleLifeLost_updates[OF assms(2) t']
  have base: "powerUps (tickBase env s) =
                (if evaluatedEagerly env s then powerUps s else powerUps (spawnPowerUp env s s))"
    using spawnPowerUp_powerUps[of "expireTimers env s" s env s]
    by (simp add: tickBase_def)
  have p: "powerUps s' = powerUps (spawnPowerUp env s s)"
  proof (cases "evaluatedEagerly env s")
    case True
    with u base have "powerUps (t'\<lparr>snake := snake s\<rparr>) = powerUps s" by simp
    from spawnPowerUp_powerUps[OF this, of env s] s' True show ?thesis
      by (simp add: tickFinish_def)
  next
    case False
    with u base s' show ?thesis by (simp add: tickFinish_def)
  qed
  then have q: "powerUps s \<noteq> [] \<longrightarrow> powerUps s' = powerUps s"
    by (simp add: spawnPowerUp_occupied_board)
  from u s' playing have rest: "lives s' = lives s - 1 \<and> combo s' = 0
      \<and> direction s' = INITIAL_DIRECTION \<and> nextDirection s' = INITIAL_DIRECTION
      \<and> activePowerUp s' = None
      \<and> score s' = score s \<and> status s' = PLAYING
      \<and> highScore s' = highScore s \<and> gameOverReason s' = gameOverReason s
      \<and> comboExpiresAt s' = comboExpiresAt s \<and> savedComboTime s' = savedComboTime s
      \<and> localStorage s' = localStorage s
      \<and> (if isOccupied (cx (food s)) (cy (food s)) INITIAL_SNAKE []
          then \<not> isOccupied (cx (food s')) (cy (food s')) INITIAL_SNAKE []
          else food s' = food s)
      \<and> (\<not> evaluatedEagerly env s \<longrightarrow> snake s' = INITIAL_SNAKE)"
    by (simp split: if_splits)
  with p q show "lives s' = lives s - 1 \<and> combo s' = 0
            \<and> direction s' = INITIAL_DIRECTION \<and> nextDirection s' = INITIAL_DIRECTION
            \<and> activePowerUp s' = None
            \<and> powerUps s' = powerUps (spawnPowerUp env s s)
            \<and> (powerUps s \<noteq> [] \<longrightarrow> powerUps s' = powerUps s)
            \<and> score s' = score s \<and> status s' = PLAYING
            \<and> highScore s' = highScore s \<and> gameOverReason s' = gameOverReason s
            \<and> comboExpiresAt s' = comboExpiresAt s \<and> savedComboTime s' = savedComboTime s
            \<and> localStorage s' = localStorage s
            \<and> (if isOccupied (cx (food s)) (cy (food s)) INITIAL_SNAKE []
                then \<not> isOccupied (cx (food s')) (cy (food s')) INITIAL_SNAKE []
                else food s' = food s)
            \<and> (\<not> evaluatedEagerly env s \<longrightarrow> snake s' = INITIAL_SNAKE)"
    by simp
next
  assume d: "isOccupied (cx (food s)) (cy (food s)) INITIAL_SNAKE [] \<longrightarrow>
              (\<exists>k. \<not> isOccupied (cx (foodDraws env k)) (cy (foodDraws env k)) INITIAL_SNAKE [])"
  then have "isOccupied (cx (food (tickBase env s))) (cy (food (tickBase env s))) INITIAL_SNAKE [] \<longrightarrow>
              (\<exists>k. \<not> isOccupied (cx (foodDraws env k)) (cy (foodDraws env k)) INITIAL_SNAKE [])"
    by simp
  from handleLifeLost_returns[OF assms(2) this]
  obtain t' where "handleLifeLost (foodDraws env) reason s (tickBase env s) = Some t'"
    by blast
  then show "\<exists>s'. moveSnake env s = Some s'"
    by (simp add: moveSnake_lifeLost[OF assms(1)])
qed

theorem life_loss_with_lives_left_witness:
  "tickOutcome wallWithPowerUp = Some (Inl WALL) \<and> lives wallWithPowerUp > 1
   \<and> (\<exists>s'. moveSnake cornerEnv wallWithPowerUp = Some s'
         \<and> lives s' = 2 \<and> combo s' = 0 \<and> snake s' = INITIAL_SNAKE \<and> score s' = 0
         \<and> powerUps s' = [\<lparr>cx = 3, cy = 3, ptype = SLOW_TIME\<rparr>]
         \<and> food s' = \<lparr>cx = 7, cy = 7\<rparr> \<and> status s' = PLAYING)
   \<and> tickOutcome foodUnderSpawn = Some (Inl WALL)
   \<and> (\<exists>s'. moveSnake cornerEnv foodUnderSpawn = Some s'
         \<and> lives s' = 2
         \<and> \<not> isOccupied (cx (food s')) (cy (food s')) INITIAL_SNAKE [])"
proof -
  have o1: "tickOutcome wallWithPowerUp = Some (Inl WALL)"
    and o2: "tickOutcome foodUnderSpawn = Some (Inl WALL)"
    by (simp_all add: tickOutcome_def tick_defs const_defs wallWithPowerUp_def
          foodUnderSpawn_def wallNoGhost_def ghostAtWall_def Let_def)
  have l: "lives wallWithPowerUp > 1" "lives foodUnderSpawn > 1"
    by (simp_all add: wallWithPowerUp_def foodUnderSpawn_def wallNoGhost_def ghostAtWall_def)
  have v: "lives wallWithPowerUp = 3" "score wallWithPowerUp = 0"
    "food wallWithPowerUp = \<lparr>cx = 7, cy = 7\<rparr>"
    "powerUps wallWithPowerUp = [\<lparr>cx = 3, cy = 3, ptype = SLOW_TIME\<rparr>]"
    "lives foodUnderSpawn = 3"
    by (simp_all add: wallWithPowerUp_def foodUnderSpawn_def wallNoGhost_def ghostAtWall_def)
  have e: "\<not> evaluatedEagerly cornerEnv wallWithPowerUp"
    by (simp add: evaluatedEagerly_def cornerEnv_def)
  have o: "\<not> isOccupied (cx (food wallWithPowerUp)) (cy (food wallWithPowerUp)) INITIAL_SNAKE []"
    "isOccupied (cx (food foodUnderSpawn)) (cy (food foodUnderSpawn)) INITIAL_SNAKE []"
    "\<not> isOccupied (cx (foodDraws cornerEnv 0)) (cy (foodDraws cornerEnv 0)) INITIAL_SNAKE []"
    by (simp_all add: isOccupied_def INITIAL_SNAKE_def wallWithPowerUp_def foodUnderSpawn_def
          wallNoGhost_def ghostAtWall_def cornerEnv_def)
  note A = life_loss_with_lives_left[OF o1 l(1), of cornerEnv]
  note B = life_loss_with_lives_left[OF o2 l(2), of cornerEnv]
  from A o(1) obtain s1 where s1: "moveSnake cornerEnv wallWithPowerUp = Some s1"
    by blast
  with A have "powerUps wallWithPowerUp \<noteq> [] \<longrightarrow> powerUps s1 = powerUps wallWithPowerUp"
    by blast
  with v(4) have pw: "powerUps s1 = [\<lparr>cx = 3, cy = 3, ptype = SLOW_TIME\<rparr>]" by simp
  from s1 A o(1) e have "lives s1 = lives wallWithPowerUp - 1 \<and> combo s1 = 0
      \<and> snake s1 = INITIAL_SNAKE \<and> score s1 = score wallWithPowerUp
      \<and> food s1 = food wallWithPowerUp \<and> status s1 = PLAYING"
    by simp
  with v s1 pw have 1: "\<exists>s'. moveSnake cornerEnv wallWithPowerUp = Some s'
         \<and> lives s' = 2 \<and> combo s' = 0 \<and> snake s' = INITIAL_SNAKE \<and> score s' = 0
         \<and> powerUps s' = [\<lparr>cx = 3, cy = 3, ptype = SLOW_TIME\<rparr>]
         \<and> food s' = \<lparr>cx = 7, cy = 7\<rparr> \<and> status s' = PLAYING"
    by simp
  from B o(3) obtain s2 where s2: "moveSnake cornerEnv foodUnderSpawn = Some s2"
    by blast
  with B o(2) have "lives s2 = lives foodUnderSpawn - 1
      \<and> \<not> isOccupied (cx (food s2)) (cy (food s2)) INITIAL_SNAKE []"
    by simp
  with v s2 have 2: "\<exists>s'. moveSnake cornerEnv foodUnderSpawn = Some s'
         \<and> lives s' = 2 \<and> \<not> isOccupied (cx (food s')) (cy (food s')) INITIAL_SNAKE []"
    by simp
  from o1 l(1) 1 o2 2 show ?thesis by blast
qed

text \<open>
  Claim C6 as stated gives \<open>t2 + (comboExpiresAt - t1)\<close> after every pause with a
  positive combo. When the combo's time has run out at the pause (it stays positive until
  the next tick sweeps it), the captured remainder is clamped to 0 and
  \<^verbatim>\<open>handleResume\<close>, which restores only a positive remainder, leaves
  \<^verbatim>\<open>comboExpiresAt\<close> where it was.
\<close>

theorem resume_ignores_spent_combo_time:
  "combo expiredCombo > 0
   \<and> comboExpiresAt (handleResume 3000 (handlePause 1050 expiredCombo)) = 1000
   \<and> comboExpiresAt (handleResume 3000 (handlePause 1050 expiredCombo))
       \<noteq> 3000 + (comboExpiresAt expiredCombo - 1050)
   \<and> comboExpiresAt (handleResume 3000 (handlePause 1050 expiredCombo))
       \<noteq> 3000 + savedComboTime (handlePause 1050 expiredCombo)"
  by (simp add: handlePause_def handleResume_def expiredCombo_def Let_def)

text \<open>
  Claim C6, amended. A pause at \<open>t1\<close> followed by a resume at \<open>t2\<close>: when the combo is
  positive and has time left at the pause, that time \<open>comboExpiresAt - t1\<close> is captured
  and \<^verbatim>\<open>comboExpiresAt\<close> becomes \<open>t2\<close> plus it, so the time left at the resume is the
  time left at the pause; in every other case nothing is captured and
  \<^verbatim>\<open>comboExpiresAt\<close> is unchanged. The counter itself is untouched.
\<close>

theorem pause_resume_keeps_remaining_combo_time:
  "(combo s > 0 \<and> comboExpiresAt s > t1 \<longrightarrow>
      savedComboTime (handlePause t1 s) = comboExpiresAt s - t1
      \<and> comboExpiresAt (handleResume t2 (handlePause t1 s)) = t2 + (comboExpiresAt s - t1)
      \<and> comboExpiresAt (handleResume t2 (handlePause t1 s)) - t2 = comboExpiresAt s - t1)
   \<and> (\<not> (combo s > 0 \<and> comboExpiresAt s > t1) \<longrightarrow>
      savedComboTime (handlePause t1 s) = 0
      \<and> comboExpiresAt (handleResume t2 (handlePause t1 s)) = comboExpiresAt s)
   \<and> combo (handleResume t2 (handlePause t1 s)) = combo s
   \<and> status (handlePause t1 s) = PAUSED
   \<and> status (handleResume t2 (handlePause t1 s)) = PLAYING"
  by (auto simp add: handlePause_def handleResume_def Let_def)

theorem pause_resume_keeps_remaining_combo_time_witness:
  "comboExpiresAt (handleResume 3000 (handlePause 500 expiredCombo)) = 3500
   \<and> savedComboTime (handlePause 500 expiredCombo) = 500
   \<and> comboExpiresAt (handleResume 3000 (handlePause 1050 expiredCombo)) = comboExpiresAt expiredCombo"
proof -
  have a: "combo expiredCombo > 0 \<and> comboExpiresAt expiredCombo > 500"
    and b: "\<not> (combo expiredCombo > 0 \<and> comboExpiresAt expiredCombo > 1050)"
    and c: "comboExpiresAt expiredCombo = 1000"
    by (simp_all add: expiredCombo_def)
  from pause_resume_keeps_remaining_combo_time[of expiredCombo 500 3000] a c
  have 1: "comboExpiresAt (handleResume 3000 (handlePause 500 expiredCombo)) = 3500
     \<and> savedComboTime (handlePause 500 expiredCombo) = 500" by simp
  from pause_resume_keeps_remaining_combo_time[of expiredCombo 1050 3000] b
  have 2: "comboExpiresAt (handleResume 3000 (handlePause 1050 expiredCombo)) = comboExpiresAt expiredCombo"
    by blast
  from 1 2 show ?thesis by simp
qed

text \<open>
  Claim C3 as stated makes \<^verbatim>\<open>handleResume\<close> and \<^verbatim>\<open>handlePause\<close> no-ops outside their
  states. Neither handler looks at the status: on the freshly mounted, idle component
  \<^verbatim>\<open>handleResume\<close> sets the status to PLAYING and \<^verbatim>\<open>handlePause\<close> sets it to PAUSED.
\<close>

theorem resume_from_idle_starts_play:
  "status (initialApp None) = IDLE
   \<and> status (handleResume 0 (initialApp None)) = PLAYING
   \<and> status (handlePause 0 (initialApp None)) = PAUSED
   \<and> handleResume 0 (initialApp None) \<noteq> initialApp None"
proof -
  have 1: "status (initialApp None) = IDLE" by (simp add: initialApp_def)
  have 2: "status (handleResume 0 (initialApp None)) = PLAYING"
    by (simp add: handleResume_def Let_def)
  have 3: "status (handlePause 0 (initialApp None)) = PAUSED"
    by (simp add: handlePause_def Let_def)
  from 1 2 have "handleResume 0 (initialApp None) \<noteq> initialApp None" by auto
  with 1 2 3 show ?thesis by simp
qed

text \<open>
  Claim C3, amended. The guard is in the dispatch, not in the handlers. Escape and the
  pause button reach \<^verbatim>\<open>handlePause\<close> only while playing and leave the state unchanged in
  every other status; Space reaches \<^verbatim>\<open>handlePause\<close> only while playing and
  \<^verbatim>\<open>handleResume\<close> only while paused (idle or after a game over it starts a new game).
  The handlers themselves set the status to PAUSED and to PLAYING from any state.
\<close>

theorem pause_resume_guarded_by_dispatch:
  "(status s \<noteq> PLAYING \<longrightarrow>
      handleKeyDown Escape now draws s = Some s \<and> handleEvent (PauseClick now) s = Some s)
   \<and> (status s = PLAYING \<longrightarrow>
      handleKeyDown Escape now draws s = Some (handlePause now s)
      \<and> handleEvent (PauseClick now) s = Some (handlePause now s))
   \<and> handleKeyDown Space now draws s =
       (if status s = PLAYING then Some (handlePause now s)
        else if status s = PAUSED then Some (handleResume now s)
        else resetGame draws s)
   \<and> status (handlePause now s) = PAUSED
   \<and> status (handleResume now s) = PLAYING"
  by (cases "status s")
     (simp_all add: handleKeyDown_def handleEvent_def handlePause_def handleResume_def Let_def)

theorem pause_resume_guarded_by_dispatch_witness:
  "handleKeyDown Escape 0 (foodDraws cornerEnv) (initialApp None) = Some (initialApp None)
   \<and> handleEvent (PauseClick 0) (initialApp None) = Some (initialApp None)
   \<and> handleKeyDown Escape 0 (foodDraws cornerEnv) expiredCombo = Some (handlePause 0 expiredCombo)
   \<and> status (handlePause 0 expiredCombo) = PAUSED"
proof -
  have a: "status (initialApp None) \<noteq> PLAYING" "status expiredCombo = PLAYING"
    by (simp_all add: initialApp_def expiredCombo_def)
  from pause_resume_guarded_by_dispatch[of "initialApp None" 0 "foodDraws cornerEnv"] a(1)
  have 1: "handleKeyDown Escape 0 (foodDraws cornerEnv) (initialApp None) = Some (initialApp None)
     \<and> handleEvent (PauseClick 0) (initialApp None) = Some (initialApp None)" by blast
  from pause_resume_guarded_by_dispatch[of expiredCombo 0 "foodDraws cornerEnv"] a(2)
  have 2: "handleKeyDown Escape 0 (foodDraws cornerEnv) expiredCombo = Some (handlePause 0 expiredCombo)
     \<and> status (handlePause 0 expiredCombo) = PAUSED" by blast
  from 1 2 show ?thesis by blast
qed

section \<open>The high score\<close>

lemma storedHighScore_eq:
  "storedHighScore s = (case localStorage s of None \<Rightarrow> 0 | Some saved \<Rightarrow> saved)"
  by (simp add: storedHighScore_def loadHighScore_def split: option.splits)

lemma handleLifeLost_store:
  assumes "handleLifeLost draws reason c t = Some t'"
  shows "highScore t' = highScore t"
    and "score c \<le> highScore c \<Longrightarrow> localStorage t' = localStorage t"
  using assms
  by (auto simp add: handleLifeLost_def handleGameOver_def Let_def split: if_splits)

lemma eatOrPop_store:
  assumes "eatOrPop env c t nh = Some t'"
  shows "highScore t' = highScore t" and "localStorage t' = localStorage t"
  using assms by (auto simp add: eatOrPop_def Let_def split: if_splits)

lemma moveSnake_store:
  assumes "moveSnake env s = Some s'"
  shows "highScore s' = highScore s \<and> (score s \<le> highScore s \<longrightarrow> localStorage s' = localStorage s)"
proof (cases s rule: tickOutcome_cases)
  case idle
  with assms show ?thesis by (simp add: moveSnake_def)
next
  case empty
  with assms show ?thesis by (auto simp add: moveSnake_empty)
next
  case (lost reason)
  from assms[unfolded moveSnake_lifeLost[OF lost(2)]] obtain t' where
    t': "handleLifeLost (foodDraws env) reason s (tickBase env s) = Some t'"
    and s': "s' = tickFinish env s (if evaluatedEagerly env s then t'\<lparr>snake := snake s\<rparr> else t')"
    by auto
  from handleLifeLost_store[OF t'] s' show ?thesis by simp
next
  case (advance newHead)
  from assms[unfolded moveSnake_advance[OF advance(2)]] obtain t' where
    t': "eatOrPop env s (tickBase env s) newHead = Some t'"
    and s': "s' = tickFinish env s (pickPowerUp env s t' newHead)"
    by auto
  from eatOrPop_store[OF t'] s' show ?thesis by simp
qed

lemma resetGame_store:
  assumes "resetGame draws s = Some s'"
  shows "highScore s' = highScore s \<and> localStorage s' = localStorage s"
  using assms by (auto simp add: resetGame_def)

lemma handleKeyDown_store:
  assumes "handleKeyDown k now draws s = Some s'"
  shows "highScore s' = highScore s \<and> localStorage s' = localStorage s"
proof (cases k)
  case (Mapped d)
  with assms show ?thesis by (auto simp add: handleKeyDown_def updateDirection_def split: if_splits)
next
  case Space
  with assms show ?thesis
    by (auto simp add: handleKeyDown_def handlePause_def handleResume_def Let_def
          dest: resetGame_store split: if_splits)
next
  case Escape
  with assms show ?thesis
    by (auto simp add: handleKeyDown_def handlePause_def Let_def split: if_splits)
next
  case OtherKey
  with assms show ?thesis by (simp add: handleKeyDown_def)
qed

lemma handleEvent_store:
  assumes "handleEvent e s = Some s'"
  shows "highScore s' = highScore s \<and> (score s \<le> highScore s \<longrightarrow> localStorage s' = localStorage s)"
proof (cases e)
  case (Tick env)
  with assms show ?thesis using moveSnake_store by (simp add: handleEvent_def)
next
  case (KeyDown k now draws)
  with assms show ?thesis using handleKeyDown_store by (simp add: handleEvent_def)
next
  case (PauseClick now)
  with assms show ?thesis by (auto simp add: handleEvent_def handlePause_def Let_def split: if_splits)
next
  case (ResumeClick now)
  with assms show ?thesis by (auto simp add: handleEvent_def handleResume_def Let_def)
next
  case (RestartClick draws)
  with assms show ?thesis using resetGame_store by (simp add: handleEvent_def)
next
  case ExitClick
  with assms show ?thesis by (auto simp add: handleEvent_def handleExit_def)
next
  case (Touch d)
  with assms show ?thesis by (auto simp add: handleEvent_def updateDirection_def split: if_splits)
qed

lemma step_highScore:
  assumes "step e s = Some s'" and "score s \<le> highScore s" and "storedHighScore s = highScore s"
  shows "highScore s' = max (highScore s) (score s')"
    and "score s' \<le> highScore s'" and "storedHighScore s' = highScore s'"
proof -
  from assms(1) obtain u where u: "handleEvent e s = Some u" and s': "s' = highScoreEffect u"
    by (auto simp add: step_def)
  from handleEvent_store[OF u] assms(2)
  have h: "highScore u = highScore s" "localStorage u = localStorage s" by simp_all
  with assms(3) have st: "storedHighScore u = highScore u" by (simp add: storedHighScore_eq)
  from s' h show "highScore s' = max (highScore s) (score s')"
    by (simp add: highScoreEffect_def)
  from s' show "score s' \<le> highScore s'" by (simp add: highScoreEffect_def)
  from s' st show "storedHighScore s' = highScore s'"
    by (simp add: highScoreEffect_def storedHighScore_eq)
qed

lemma mount_invariant:
  "score (mount store) \<le> highScore (mount store)
   \<and> storedHighScore (mount store) = highScore (mount store)"
  by (cases store)
     (simp_all add: mount_def highScoreEffect_def loadHighScore_def initialApp_def
        storedHighScore_eq)

lemma run_invariant:
  assumes "run es s = Some s'" and "score s \<le> highScore s" and "storedHighScore s = highScore s"
  shows "highScore s \<le> highScore s' \<and> score s' \<le> highScore s'
         \<and> storedHighScore s' = highScore s'"
  using assms
proof (induction es arbitrary: s)
  case Nil
  then show ?case by simp
next
  case (Cons e es)
  from Cons.prems(1) obtain u where u: "step e s = Some u" and r: "run es u = Some s'"
    by (auto split: option.splits)
  note st = step_highScore[OF u Cons.prems(2,3)]
  from Cons.IH[OF r st(2,3)] st(1) show ?case by simp
qed

text \<open>
  Claim C8. States are taken after the high-score effect of their render has run (the
  render that first shows a new record has the score above the high score until the effect
  raises it). Let \<open>s\<close> be any state the mounted component reaches and \<open>s'\<close> any state it
  reaches later. The high score of \<open>s'\<close> is at least the high score of \<open>s\<close>, at least the
  score of \<open>s\<close> and at least its own score; the store holds exactly the high score of
  \<open>s'\<close>; and every step sets the high score to the maximum of the old high score and the
  new score, so the high score is the largest score ever reached (or the stored value the
  process started with, when larger).
\<close>

theorem highScore_monotone_and_persisted:
  assumes "run es (mount store) = Some s" and "run es' s = Some s'"
  shows "highScore s \<le> highScore s' \<and> score s \<le> highScore s' \<and> score s' \<le> highScore s'
         \<and> storedHighScore s' = highScore s'
         \<and> (\<forall>e u. step e s = Some u \<longrightarrow> highScore u = max (highScore s) (score u))"
proof -
  from run_invariant[OF assms(1)] mount_invariant
  have inv: "score s \<le> highScore s" "storedHighScore s = highScore s" by simp_all
  from run_invariant[OF assms(2) inv]
  have "highScore s \<le> highScore s' \<and> score s' \<le> highScore s'
         \<and> storedHighScore s' = highScore s'" .
  moreover from this inv(1) have "score s \<le> highScore s'" by simp
  moreover have "\<forall>e u. step e s = Some u \<longrightarrow> highScore u = max (highScore s) (score u)"
    using step_highScore(1)[OF _ inv] by blast
  ultimately show ?thesis by simp
qed

theorem highScore_monotone_and_persisted_witness:
  "\<exists>s s'. run [RestartClick aboveHead] (mount None) = Some s
      \<and> run [Tick cornerEnv] s = Some s'
      \<and> highScore s = 0 \<and> score s' = 10 \<and> highScore s' = 10 \<and> localStorage s' = Some 10
      \<and> storedHighScore s' = highScore s'"
proof -
  define s where "s = the (run [RestartClick aboveHead] (mount None))"
  have f: "generateFood aboveHead INITIAL_SNAKE [] = Some \<lparr>cx = 10, cy = 9\<rparr>"
    using generateFood_first_draw[of aboveHead INITIAL_SNAKE "[]"]
    by (simp add: aboveHead_def isOccupied_def INITIAL_SNAKE_def)
  have r1: "run [RestartClick aboveHead] (mount None) = Some s"
    unfolding s_def
    by (simp add: step_def handleEvent_def resetGame_def f)
  have v: "status s = PLAYING" "snake s = INITIAL_SNAKE" "nextDirection s = UP"
    "activePowerUp s = None" "food s = \<lparr>cx = 10, cy = 9\<rparr>" "score s = 0" "highScore s = 0"
    "combo s = 0" "powerUps s = []" "localStorage s = None"
    unfolding s_def
    by (simp_all add: step_def handleEvent_def resetGame_def f mount_def initialApp_def
          loadHighScore_def highScoreEffect_def INITIAL_DIRECTION_def)
  define s' where "s' = the (run [Tick cornerEnv] s)"
  have g: "generateFood (foodDraws cornerEnv) (\<lparr>cx = 10, cy = 9\<rparr> # INITIAL_SNAKE) []
             = Some \<lparr>cx = 0, cy = 0\<rparr>"
    using generateFood_first_draw[of "foodDraws cornerEnv" "\<lparr>cx = 10, cy = 9\<rparr> # INITIAL_SNAKE" "[]"]
    by (simp add: cornerEnv_def isOccupied_def INITIAL_SNAKE_def)
  have out: "tickOutcome s = Some (Inr \<lparr>cx = 10, cy = 9\<rparr>)"
    by (simp add: tickOutcome_def v checkCollision_def selfCheck_def ghostActive_def
          moveHead_def outOfGrid_def INITIAL_SNAKE_def GRID_SIZE_def Let_def)
  have m: "moveSnake cornerEnv s = Some (the (moveSnake cornerEnv s))"
    unfolding moveSnake_advance[OF out]
    by (simp add: eatOrPop_def v g Let_def)
  then obtain x where x: "moveSnake cornerEnv s = Some x" by blast
  then have r2: "run [Tick cornerEnv] s = Some s'"
    unfolding s'_def by (simp add: step_def handleEvent_def)
  from moveSnake_eat(1)[OF out _ x] v
  have "score x = 10" by (simp add: POINTS_PER_FOOD_def)
  with x have sc: "score s' = 10"
    unfolding s'_def by (simp add: step_def handleEvent_def highScoreEffect_def)
  note T = highScore_monotone_and_persisted[OF r1 r2]
  from T have p: "storedHighScore s' = highScore s'" by simp
  have u: "step (Tick cornerEnv) s = Some s'" using r2 by (simp split: option.splits)
  with T have "highScore s' = max (highScore s) (score s')" by blast
  with v sc have h: "highScore s' = 10" by simp
  with p have "localStorage s' = Some 10 \<or> (localStorage s' = None \<and> (10::int) = 0)"
    by (simp add: storedHighScore_eq split: option.splits)
  then have l: "localStorage s' = Some 10" by simp
  from r1 r2 v(7) sc h l p show ?thesis by blast
qed

section \<open>The snake stays in the grid\<close>

text \<open>
  The head a tick advances to is always a cell of the grid, wrapped or not, so every state
  the mounted component reaches has its whole snake in the grid. In particular the
  hypothesis on the head in the lemma on the wall check holds in every reachable state.
\<close>

lemma wrapAround_inGrid: "\<not> outOfGrid (wrapAround c)"
  by (cases c) (simp add: wrapAround_def outOfGrid_def GRID_SIZE_def Let_def)

lemma checkCollision_inGrid:
  assumes "checkCollision ap d h sn = Inr nh"
  shows "\<not> outOfGrid nh"
  using assms wrapAround_inGrid
  by (auto simp add: checkCollision_def selfCheck_def Let_def split: if_splits)

lemma INITIAL_SNAKE_inGrid: "list_all (\<lambda>c. \<not> outOfGrid c) INITIAL_SNAKE"
  by (simp add: INITIAL_SNAKE_def outOfGrid_def GRID_SIZE_def)

lemma list_all_butlast: "list_all P xs \<Longrightarrow> list_all P (butlast xs)"
  by (auto simp add: list_all_iff dest: in_set_butlastD)

lemma moveSnake_inGrid:
  assumes "moveSnake env s = Some s'" and "snakeInGrid s"
  shows "snakeInGrid s'"
proof (cases s rule: tickOutcome_cases)
  case idle
  with assms show ?thesis by (simp add: moveSnake_def)
next
  case empty
  with assms show ?thesis by (auto simp add: moveSnake_empty snakeInGrid_def)
next
  case (lost reason)
  from assms(1)[unfolded moveSnake_lifeLost[OF lost(2)]] obtain t' where
    t': "handleLifeLost (foodDraws env) reason s (tickBase env s) = Some t'"
    and s': "s' = tickFinish env s (if evaluatedEagerly env s then t'\<lparr>snake := snake s\<rparr> else t')"
    by auto
  from handleLifeLost_snake[OF t'] s' assms(2) INITIAL_SNAKE_inGrid show ?thesis
    by (simp add: snakeInGrid_def split: if_splits)
next
  case (advance newHead)
  from assms(1)[unfolded moveSnake_advance[OF advance(2)]] obtain t' where
    t': "eatOrPop env s (tickBase env s) newHead = Some t'"
    and s': "s' = tickFinish env s (pickPowerUp env s t' newHead)"
    by auto
  from advance have "\<not> outOfGrid newHead"
    by (auto simp add: tickOutcome_def split: if_splits list.splits dest: checkCollision_inGrid)
  with assms(2) have "list_all (\<lambda>c. \<not> outOfGrid c) (newHead # snake s)"
    by (simp add: snakeInGrid_def)
  with eatOrPop_snake[OF t'] s' show ?thesis
    by (auto simp add: snakeInGrid_def list_all_butlast simp del: butlast.simps split: if_splits)
qed

lemma handleEvent_inGrid:
  assumes "handleEvent e s = Some s'" and "snakeInGrid s"
  shows "snakeInGrid s'"
proof (cases e)
  case (Tick env)
  with assms show ?thesis using moveSnake_inGrid by (simp add: handleEvent_def)
next
  case (KeyDown k now draws)
  with assms INITIAL_SNAKE_inGrid show ?thesis
    by (cases k)
       (auto simp add: handleEvent_def handleKeyDown_def updateDirection_def handlePause_def
          handleResume_def resetGame_def snakeInGrid_def Let_def split: if_splits)
next
  case (PauseClick now)
  with assms show ?thesis
    by (auto simp add: handleEvent_def handlePause_def snakeInGrid_def Let_def split: if_splits)
next
  case (ResumeClick now)
  with assms show ?thesis
    by (auto simp add: handleEvent_def handleResume_def snakeInGrid_def Let_def)
next
  case (RestartClick draws)
  with assms INITIAL_SNAKE_inGrid show ?thesis
    by (auto simp add: handleEvent_def resetGame_def snakeInGrid_def)
next
  case ExitClick
  with assms show ?thesis by (auto simp add: handleEvent_def handleExit_def snakeInGrid_def)
next
  case (Touch d)
  with assms show ?thesis
    by (auto simp add: handleEvent_def updateDirection_def snakeInGrid_def split: if_splits)
qed

lemma run_inGrid:
  assumes "run es s = Some s'" and "snakeInGrid s"
  shows "snakeInGrid s'"
  using assms
proof (induction es arbitrary: s)
  case Nil
  then show ?case by simp
next
  case (Cons e es)
  from Cons.prems(1) obtain u where u: "step e s = Some u" and r: "run es u = Some s'"
    by (auto split: option.splits)
  from u obtain v where v: "handleEvent e s = Some v" and "u = highScoreEffect v"
    by (auto simp add: step_def)
  with handleEvent_inGrid[OF v Cons.prems(2)] have "snakeInGrid u"
    by (simp add: snakeInGrid_def highScoreEffect_def)
  with Cons.IH[OF r] show ?case .
qed

lemma reachable_snake_in_grid:
  assumes "run es (mount store) = Some s"
  shows "snakeInGrid s"
proof -
  have "snakeInGrid (mount store)"
    using INITIAL_SNAKE_inGrid
    by (cases store)
       (simp_all add: snakeInGrid_def mount_def highScoreEffect_def loadHighScore_def
          initialApp_def)
  with assms show ?thesis by (rule run_inGrid)
qed

end
